theory Spec2Isabelle
  imports Complex_Main "HOL-Library.Multiset" "HOL-Library.Monad_Syntax"
begin

section \<open>Daily bars\<close>

text \<open>
  One trading day of one instrument, as the three programs read it after numeric
  coercion: the four prices, the volume in lots and the net lots bought by the three
  institutional categories. The programs hold these as floating point numbers, or as
  64-bit integers where a whole column parses as integers; the development takes them
  as exact rationals, and every row is one whose fields are all numbers (no NaN), so
  the \<open>pd.isna\<close> guards of the source are always false and are left out. The columns
  the source tests for with \<open>in recent.columns\<close> are all present. Sums of nets are exact
  here, where 64-bit integers wrap around and floating point rounds: the statements
  about such sums below are made for nets that are whole lots of at most \<open>2^40\<close>, for
  which the source's sums are exact as well.
\<close>

record bar =
  open_price :: rat
  high_price :: rat
  low_price :: rat
  close_price :: rat
  volume :: rat
  foreign_net :: rat
  fund_net :: rat
  dealer_net :: rat

text \<open>A bar with no institutional trading, for examples of the price and volume rules.\<close>

definition ohlcv :: "rat \<Rightarrow> rat \<Rightarrow> rat \<Rightarrow> rat \<Rightarrow> rat \<Rightarrow> bar" where
  "ohlcv o_p h_p l_p c_p v =
     \<lparr>open_price = o_p, high_price = h_p, low_price = l_p, close_price = c_p, volume = v,
      foreign_net = 0, fund_net = 0, dealer_net = 0\<rparr>"

subsection \<open>Python sequence access\<close>

text \<open>\<open>df.tail(n)\<close>: the last \<open>n\<close> rows, all of them when there are fewer.\<close>

definition tail :: "nat \<Rightarrow> 'a list \<Rightarrow> 'a list" where
  "tail n xs = drop (length xs - n) xs"

text \<open>\<open>xs.iloc[-k]\<close> for \<open>1 \<le> k \<le> len(xs)\<close>; every use below is within that range.\<close>

definition iloc_neg :: "'a list \<Rightarrow> nat \<Rightarrow> 'a" where
  "iloc_neg xs k = xs ! (length xs - k)"

text \<open>
  \<open>xs.iloc[-a:-b]\<close> for \<open>a, b > 0\<close>: Python clamps a start or an end before the first
  element to the first element, which is what truncating subtraction does.
\<close>

definition slice_neg :: "'a list \<Rightarrow> nat \<Rightarrow> nat \<Rightarrow> 'a list" where
  "slice_neg xs a b =
     (let s = length xs - a; e = length xs - b in take (e - s) (drop s xs))"

text \<open>\<open>all(xs[i] < xs[i+1] for i in range(len(xs) - 1))\<close> and its three siblings.\<close>

fun all_adjacent :: "('a \<Rightarrow> 'a \<Rightarrow> bool) \<Rightarrow> 'a list \<Rightarrow> bool" where
  "all_adjacent r (x # y # ys) = (r x y \<and> all_adjacent r (y # ys))"
| "all_adjacent r _ = True"

section \<open>Signal scoring classifier (StockTrend2.py, analyze_volume_price_pattern)\<close>

text \<open>
  The source's signal texts, risk factor texts, actions and risk levels are Chinese
  strings; each is one constructor here, named by its meaning and listed in source
  order. Actions: \<open>shang che\<close> (enter), \<open>zhong cang\<close> (heavy load), \<open>jian cang\<close>
  (reduce), \<open>qing cang\<close> (exit), \<open>guan wang\<close> (hold). Risk levels: \<open>di\<close> (low),
  \<open>zhong\<close> (medium), \<open>gao\<close> (high). The two support signals carry the support price
  that the source formats into the text.
\<close>

datatype signal =
    SigHighVolumeDay1
  | SigAboveSupport rat
  | SigBrokeSupport rat
  | SigRedThreeAboveSupport
  | SigRedThree
  | SigGreenThreeBelowResistance
  | SigGreenThree
  | SigBottomFractalAboveSupport
  | SigTopFractalBelowResistance
  | SigViolentSwing
  | SigHighVolumeLowerShadow
  | SigLowerShadowNoVolume
  | SigUpperShadowAtResistance
  | SigDowntrend
  | SigRisingVolumeLadder
  | SigFallingVolumeLadder
  | SigBigVolumeSmallBody
  | SigRedRunThenGreenOnVolume
  | SigHighVolumeDay1Observe
  | SigHighVolumeDay23AboveSupport

datatype risk_factor =
    BrokeSupport
  | GreenThree
  | TopFractal
  | ViolentSwing
  | LowerShadowNoVolume
  | RejectedAtResistance
  | Downtrend
  | RisingVolumeLadder
  | BigVolumeSmallBody
  | RedRunThenGreenOnVolume

datatype action = Enter | HeavyLoad | Reduce | Exit | Hold

datatype risk_level = Low | Medium | High

text \<open>
  The state the sections of the source share: the three accumulators \<open>signals\<close>,
  \<open>action_score\<close> and \<open>risk_factors\<close>, and the four locals that section 1 and section 2
  assign and the later sections read, \<open>is_high_volume\<close>, \<open>high_volume_day\<close>,
  \<open>support_price\<close> and \<open>resistance_price\<close> (the last two are \<open>None\<close> until assigned).
\<close>

record tally =
  signals :: "signal list"
  action_score :: int
  risk_factors :: "risk_factor list"
  high_volume :: bool
  spike_day :: nat
  support :: "rat option"
  resistance :: "rat option"

text \<open>
  The values the source initialises them to. In the source's order every local is
  assigned before it is read; in another order a section that comes too early reads
  the initial value.
\<close>

definition tally0 :: tally where
  "tally0 =
     \<lparr>signals = [], action_score = 0, risk_factors = [], high_volume = False,
      spike_day = 0, support = None, resistance = None\<rparr>"

definition emit :: "signal \<Rightarrow> int \<Rightarrow> tally \<Rightarrow> tally" where
  "emit s w t = t\<lparr>signals := signals t @ [s], action_score := action_score t + w\<rparr>"

definition emit_risk :: "signal \<Rightarrow> int \<Rightarrow> risk_factor \<Rightarrow> tally \<Rightarrow> tally" where
  "emit_risk s w r t =
     t\<lparr>signals := signals t @ [s], action_score := action_score t + w,
       risk_factors := risk_factors t @ [r]\<rparr>"

subsection \<open>What sections 1 and 2 compute from the bars\<close>

text \<open>\<open>recent\<close> is \<open>df.tail(10)\<close> and \<open>latest\<close> its last row.\<close>

definition latest :: "bar list \<Rightarrow> bar" where
  "latest recent = iloc_neg recent 1"

definition prev_3 :: "bar list \<Rightarrow> bar" where
  "prev_3 recent = (if 4 \<le> length recent then iloc_neg recent 4 else latest recent)"

definition is_high_volume :: "bar list \<Rightarrow> bool" where
  "is_high_volume recent =
     (let last_vol = volume (latest recent);
          prev_3_vols = (if 4 \<le> length recent then map volume (slice_neg recent 4 1) else [])
      in prev_3_vols \<noteq> [] \<and> Max (set prev_3_vols) < last_vol)"

text \<open>One round of the loop \<open>for i in range(1, 3)\<close>: was the bar \<open>i\<close> days back a spike?\<close>

definition spike_days_back :: "bar list \<Rightarrow> nat \<Rightarrow> bool" where
  "spike_days_back recent i =
     (let day_vol = volume (iloc_neg recent (i + 1));
          before_vols = map volume (slice_neg recent (i + 4) (i + 1))
      in before_vols \<noteq> [] \<and> Max (set before_vols) < day_vol)"

definition high_volume_day :: "bar list \<Rightarrow> nat" where
  "high_volume_day recent =
     (let d = (if is_high_volume recent then 1 else 0)
      in if 5 \<le> length recent
         then (if spike_days_back recent 1 then 2
               else if spike_days_back recent 2 then 3 else d)
         else d)"

text \<open>The support price that section 2 assigns once section 1 has set the flag.\<close>

definition support_price :: "bar list \<Rightarrow> rat option" where
  "support_price recent =
     (if is_high_volume recent
      then Some (min (open_price (latest recent)) (close_price (latest recent)))
      else None)"

definition resistance_price :: "bar list \<Rightarrow> rat" where
  "resistance_price recent = Max (set (map high_price recent))"

text \<open>
  The guards on the locals. \<open>support_price is not None and latest close > support_price\<close>;
  \<open>resistance_price and latest close < resistance_price\<close>, where a number is true when
  it is not 0; and \<open>resistance_price is not None and latest close < resistance_price\<close>.
\<close>

definition above_support :: "bar list \<Rightarrow> tally \<Rightarrow> bool" where
  "above_support recent t =
     (case support t of None \<Rightarrow> False | Some sp \<Rightarrow> sp < close_price (latest recent))"

definition below_true_resistance :: "bar list \<Rightarrow> tally \<Rightarrow> bool" where
  "below_true_resistance recent t =
     (case resistance t of None \<Rightarrow> False
      | Some r \<Rightarrow> r \<noteq> 0 \<and> close_price (latest recent) < r)"

definition below_resistance :: "bar list \<Rightarrow> tally \<Rightarrow> bool" where
  "below_resistance recent t =
     (case resistance t of None \<Rightarrow> False | Some r \<Rightarrow> close_price (latest recent) < r)"

subsection \<open>The detectors, in source order\<close>

text \<open>
  Section 1: the latest bar's volume exceeds the three before it. It assigns
  \<open>is_high_volume\<close> and \<open>high_volume_day\<close>; the weight of its signal is 0.
\<close>

definition detect_high_volume :: "bar list \<Rightarrow> tally \<Rightarrow> tally" where
  "detect_high_volume recent t =
     (let t1 = t\<lparr>high_volume := is_high_volume recent, spike_day := high_volume_day recent\<rparr>
      in if is_high_volume recent then emit SigHighVolumeDay1 0 t1 else t1)"

text \<open>
  Section 2: it assigns \<open>support_price\<close>, from the flag as it finds it, and
  \<open>resistance_price\<close>, then judges the latest close against the support price.
\<close>

definition detect_support :: "bar list \<Rightarrow> tally \<Rightarrow> tally" where
  "detect_support recent t =
     (let sp = (if high_volume t
                then Some (min (open_price (latest recent)) (close_price (latest recent)))
                else None);
          t1 = t\<lparr>support := sp, resistance := Some (resistance_price recent)\<rparr>;
          current_price = close_price (latest recent)
      in case sp of
           None \<Rightarrow> t1
         | Some s \<Rightarrow>
             if s < current_price then emit (SigAboveSupport s) 2 t1
             else if current_price < s
               then emit_risk (SigBrokeSupport s) (- 5) BrokeSupport t1
             else t1)"

text \<open>Section 3, first half: three rising or three falling closes.\<close>

definition detect_three_soldiers :: "bar list \<Rightarrow> tally \<Rightarrow> tally" where
  "detect_three_soldiers recent t =
     (if 3 \<le> length recent then
        (let last_3_closes = map close_price (tail 3 recent)
         in if all_adjacent (<) last_3_closes then
              (if above_support recent t then emit SigRedThreeAboveSupport 5 t
               else emit SigRedThree 2 t)
            else if all_adjacent (>) last_3_closes then
              (if below_true_resistance recent t
               then emit_risk SigGreenThreeBelowResistance (- 4) GreenThree t
               else emit SigGreenThree (- 2) t)
            else t)
      else t)"

text \<open>Section 3, second half: the middle of the last three bars is a local low, or high.\<close>

definition detect_bottom_fractal :: "bar list \<Rightarrow> tally \<Rightarrow> tally" where
  "detect_bottom_fractal recent t =
     (let lows = map low_price (tail 3 recent)
      in if lows ! 1 < lows ! 0 \<and> lows ! 1 < lows ! 2 \<and> above_support recent t
         then emit SigBottomFractalAboveSupport 4 t else t)"

definition detect_top_fractal :: "bar list \<Rightarrow> tally \<Rightarrow> tally" where
  "detect_top_fractal recent t =
     (let highs = map high_price (tail 3 recent)
      in if highs ! 0 < highs ! 1 \<and> highs ! 2 < highs ! 1 \<and> below_resistance recent t
         then emit_risk SigTopFractalBelowResistance (- 4) TopFractal t else t)"

definition detect_fractals :: "bar list \<Rightarrow> tally \<Rightarrow> tally" where
  "detect_fractals recent t =
     (if 3 \<le> length recent
      then detect_top_fractal recent (detect_bottom_fractal recent t) else t)"

text \<open>Section 4: the body and the two shadows of the latest bar.\<close>

definition body_high :: "bar \<Rightarrow> rat" where
  "body_high b = max (open_price b) (close_price b)"

definition body_low :: "bar \<Rightarrow> rat" where
  "body_low b = min (open_price b) (close_price b)"

definition body_size :: "bar \<Rightarrow> rat" where
  "body_size b = \<bar>close_price b - open_price b\<bar>"

definition upper_shadow :: "bar \<Rightarrow> rat" where
  "upper_shadow b = high_price b - body_high b"

definition lower_shadow :: "bar \<Rightarrow> rat" where
  "lower_shadow b = body_low b - low_price b"

text \<open>A shadow more than twice the body: the score so far is thrown away.\<close>

definition violent_swing :: "bar list \<Rightarrow> bool" where
  "violent_swing recent =
     (body_size (latest recent) * 2 < upper_shadow (latest recent)
      \<or> body_size (latest recent) * 2 < lower_shadow (latest recent))"

definition detect_violent_swing :: "bar list \<Rightarrow> tally \<Rightarrow> tally" where
  "detect_violent_swing recent t =
     (if violent_swing recent
      then t\<lparr>signals := signals t @ [SigViolentSwing], action_score := 0,
             risk_factors := risk_factors t @ [ViolentSwing]\<rparr>
      else t)"

definition detect_lower_shadow :: "bar list \<Rightarrow> tally \<Rightarrow> tally" where
  "detect_lower_shadow recent t =
     (if body_size (latest recent) * (1 / 2) < lower_shadow (latest recent) then
        (if high_volume t then emit SigHighVolumeLowerShadow 3 t
         else emit_risk SigLowerShadowNoVolume (- 2) LowerShadowNoVolume t)
      else t)"

definition detect_upper_shadow :: "bar list \<Rightarrow> tally \<Rightarrow> tally" where
  "detect_upper_shadow recent t =
     (if (case resistance t of None \<Rightarrow> False
          | Some r \<Rightarrow> r \<noteq> 0 \<and> r * (98 / 100) \<le> high_price (latest recent))
         \<and> close_price (latest recent) < body_high (latest recent)
      then emit_risk SigUpperShadowAtResistance (- 3) RejectedAtResistance t else t)"

definition detect_shadows :: "bar list \<Rightarrow> tally \<Rightarrow> tally" where
  "detect_shadows recent t =
     detect_upper_shadow recent (detect_lower_shadow recent (detect_violent_swing recent t))"

text \<open>Section 5: highs and lows both falling over the last three bars.\<close>

definition detect_trend :: "bar list \<Rightarrow> tally \<Rightarrow> tally" where
  "detect_trend recent t =
     (if 3 \<le> length recent
         \<and> all_adjacent (>) (map high_price (tail 3 recent))
         \<and> all_adjacent (>) (map low_price (tail 3 recent))
      then emit_risk SigDowntrend (- 3) Downtrend t else t)"

text \<open>Section 6: the volume ladder of the last four bars, and a spike with a small body.\<close>

definition detect_volume_ladder :: "bar list \<Rightarrow> tally \<Rightarrow> tally" where
  "detect_volume_ladder recent t =
     (let vols = map volume (tail 4 recent)
      in if all_adjacent (<) vols then
           (if close_price (prev_3 recent) < close_price (latest recent)
            then emit_risk SigRisingVolumeLadder (- 3) RisingVolumeLadder t else t)
         else if all_adjacent (>) vols then
           (if close_price (latest recent) < close_price (prev_3 recent)
            then emit SigFallingVolumeLadder 2 t else t)
         else t)"

definition detect_small_body :: "bar list \<Rightarrow> tally \<Rightarrow> tally" where
  "detect_small_body recent t =
     (if high_volume t
         \<and> body_size (latest recent)
             < (high_price (latest recent) - low_price (latest recent)) * (3 / 10)
      then emit_risk SigBigVolumeSmallBody (- 2) BigVolumeSmallBody t else t)"

definition detect_volume_pattern :: "bar list \<Rightarrow> tally \<Rightarrow> tally" where
  "detect_volume_pattern recent t =
     (if 4 \<le> length recent
      then detect_small_body recent (detect_volume_ladder recent t) else t)"

text \<open>
  Section 7: \<open>red_count\<close> counts the bars of \<open>recent.tail(4)\<close>, the latest bar among
  them, that close above their open; the inner test is on the latest bar again.
\<close>

definition red_count :: "bar list \<Rightarrow> nat" where
  "red_count recent = length (filter (\<lambda>b. open_price b < close_price b) (tail 4 recent))"

definition consecutive_red_fires :: "bar list \<Rightarrow> tally \<Rightarrow> bool" where
  "consecutive_red_fires recent t =
     (4 \<le> length recent \<and> 4 \<le> red_count recent \<and> 5 \<le> length recent
      \<and> close_price (latest recent) < open_price (latest recent) \<and> high_volume t)"

definition detect_consecutive_red :: "bar list \<Rightarrow> tally \<Rightarrow> tally" where
  "detect_consecutive_red recent t =
     (if consecutive_red_fires recent t
      then emit_risk SigRedRunThenGreenOnVolume (- 4) RedRunThenGreenOnVolume t else t)"

text \<open>Section 8: the first day of a spike sets the score to 0; day 2 or 3 may add 3.\<close>

definition detect_high_volume_rule :: "bar list \<Rightarrow> tally \<Rightarrow> tally" where
  "detect_high_volume_rule recent t =
     (if high_volume t then
        (if spike_day t = 1
         then t\<lparr>signals := signals t @ [SigHighVolumeDay1Observe], action_score := 0\<rparr>
         else if spike_day t = 2 \<or> spike_day t = 3 then
           (if above_support recent t
               \<and> open_price (latest recent) < close_price (latest recent)
            then emit SigHighVolumeDay23AboveSupport 3 t else t)
         else t)
      else t)"

text \<open>The nine detectors by name, and the order in which the source runs them.\<close>

datatype detector =
    HighVolumeClass
  | SupportResistance
  | ThreeSoldiers
  | Fractals
  | Shadows
  | Trend
  | VolumePattern
  | ConsecutiveRed
  | HighVolumeRule

fun apply_detector :: "detector \<Rightarrow> bar list \<Rightarrow> tally \<Rightarrow> tally" where
  "apply_detector HighVolumeClass = detect_high_volume"
| "apply_detector SupportResistance = detect_support"
| "apply_detector ThreeSoldiers = detect_three_soldiers"
| "apply_detector Fractals = detect_fractals"
| "apply_detector Shadows = detect_shadows"
| "apply_detector Trend = detect_trend"
| "apply_detector VolumePattern = detect_volume_pattern"
| "apply_detector ConsecutiveRed = detect_consecutive_red"
| "apply_detector HighVolumeRule = detect_high_volume_rule"

definition evaluation_order :: "detector list" where
  "evaluation_order =
     [HighVolumeClass, SupportResistance, ThreeSoldiers, Fractals, Shadows, Trend,
      VolumePattern, ConsecutiveRed, HighVolumeRule]"

text \<open>The detectors run one after the other on the shared state, in the order given.\<close>

definition run :: "detector list \<Rightarrow> bar list \<Rightarrow> tally \<Rightarrow> tally" where
  "run ds recent t = foldl (\<lambda>acc d. apply_detector d recent acc) t ds"

subsection \<open>From the score to the action\<close>

text \<open>
  The chain of \<open>if\<close>/\<open>elif\<close> of the source, in its order, and then the override on the
  risk factor \<open>po zhi cheng\<close> (broke support).
\<close>

definition score_action :: "int \<Rightarrow> action \<times> risk_level" where
  "score_action s =
     (if 5 \<le> s then (Enter, Low)
      else if 8 \<le> s then (HeavyLoad, Low)
      else if s \<le> - 5 then (Reduce, High)
      else if s \<le> - 8 then (Exit, High)
      else (Hold, Medium))"

definition final_decision :: "int \<Rightarrow> risk_factor list \<Rightarrow> action \<times> risk_level" where
  "final_decision s rf =
     (if BrokeSupport \<in> set rf then (Exit, High) else score_action s)"

text \<open>
  The returned dictionary. \<open>summary\<close> is a text made of the number of signals, the risk
  factors and the action, the first two only when there are any; the short-data return
  has the text \<open>zi liao bu zu\<close> (insufficient data) and no \<open>score\<close> key.
\<close>

datatype summary = InsufficientData | Summary nat "risk_factor list" action

record analysis =
  r_signals :: "signal list"
  r_action :: action
  r_risk_level :: risk_level
  r_summary :: summary
  r_score :: "int option"

definition conclude :: "tally \<Rightarrow> analysis" where
  "conclude t =
     (let d = final_decision (action_score t) (risk_factors t)
      in \<lparr>r_signals = signals t, r_action = fst d, r_risk_level = snd d,
          r_summary = Summary (length (signals t)) (risk_factors t) (fst d),
          r_score = Some (action_score t)\<rparr>)"

definition analyze_volume_price_pattern :: "bar list \<Rightarrow> analysis" where
  "analyze_volume_price_pattern df =
     (if length df < 10
      then \<lparr>r_signals = [], r_action = Hold, r_risk_level = Medium,
            r_summary = InsufficientData, r_score = None\<rparr>
      else conclude (run evaluation_order (tail 10 df) tally0))"

section \<open>Reversal screen (StockTrend.py, analyze_stock_file)\<close>

subsection \<open>Strategy parameters\<close>

text \<open>The module-level constants of the source, with the values it gives them.\<close>

definition MIN_DATA_DAYS :: nat where "MIN_DATA_DAYS = 60"
definition RECENT_BOTTOM_WINDOW :: nat where "RECENT_BOTTOM_WINDOW = 10"
definition MIN_REBOUND_AMOUNT :: rat where "MIN_REBOUND_AMOUNT = 500"
definition RISING_CHECK_DAYS :: nat where "RISING_CHECK_DAYS = 5"
definition PRICE_RECENT_LOW_WINDOW :: nat where "PRICE_RECENT_LOW_WINDOW = 10"
definition PRICE_RISING_DAYS :: nat where "PRICE_RISING_DAYS = 2"
definition RECENT_OSCILLATION_DAYS :: nat where "RECENT_OSCILLATION_DAYS = 15"
definition OSCILLATION_MIN_RANGE :: rat where "OSCILLATION_MIN_RANGE = 500"

subsection \<open>Derived series\<close>

text \<open>
  \<open>foreign_net + fund_net + dealer_net\<close>, exact. The source's sum of the three columns
  is the same number as long as no 64-bit overflow or rounding occurs.
\<close>

definition total_net :: "bar \<Rightarrow> rat" where
  "total_net b = foreign_net b + fund_net b + dealer_net b"

text \<open>
  \<open>Series.cumsum()\<close>: the running sum, started afresh for each window; exact, as
  \<open>total_net\<close> is.
\<close>

fun cumsum_from :: "rat \<Rightarrow> rat list \<Rightarrow> rat list" where
  "cumsum_from acc [] = []"
| "cumsum_from acc (x # xs) = (acc + x) # cumsum_from (acc + x) xs"

definition cumsum :: "rat list \<Rightarrow> rat list" where
  "cumsum xs = cumsum_from 0 xs"

text \<open>
  \<open>np.argmin\<close>: one pass that keeps the position of the smallest value seen and moves
  only on a strictly smaller one, so of equal minima the first is returned. numpy raises
  on an empty array; the window below is never empty.
\<close>

fun argmin_scan :: "nat \<Rightarrow> nat \<Rightarrow> rat \<Rightarrow> rat list \<Rightarrow> nat" where
  "argmin_scan i best_i best [] = best_i"
| "argmin_scan i best_i best (x # xs) =
     (if x < best then argmin_scan (Suc i) i x xs else argmin_scan (Suc i) best_i best xs)"

fun argmin :: "rat list \<Rightarrow> nat" where
  "argmin [] = 0"
| "argmin (x # xs) = argmin_scan 1 0 x xs"

definition recent_data :: "bar list \<Rightarrow> bar list" where
  "recent_data df = tail MIN_DATA_DAYS df"

definition closes :: "bar list \<Rightarrow> rat list" where
  "closes w = map close_price w"

definition cum_vals :: "bar list \<Rightarrow> rat list" where
  "cum_vals w = cumsum (map total_net w)"

definition last_cum :: "bar list \<Rightarrow> rat" where
  "last_cum w = iloc_neg (cum_vals w) 1"

subsection \<open>The four conditions\<close>

text \<open>Each takes the window \<open>recent_data\<close>, the last 60 rows of the normalized frame.\<close>

definition cond_B :: "bar list \<Rightarrow> bool" where
  "cond_B w = list_all (\<lambda>x. 0 < x) (tail 3 (map total_net w))"

definition recent_bottom :: "bar list \<Rightarrow> bool" where
  "recent_bottom w =
     (let min_idx = argmin (cum_vals w);
          days_from_min_to_today = length (cum_vals w) - 1 - min_idx
      in days_from_min_to_today \<le> RECENT_BOTTOM_WINDOW)"

definition enough_rebound :: "bar list \<Rightarrow> bool" where
  "enough_rebound w =
     (let global_min = Min (set (cum_vals w))
      in MIN_REBOUND_AMOUNT < last_cum w - global_min)"

definition last_m_rising :: "bar list \<Rightarrow> bool" where
  "last_m_rising w =
     (if RISING_CHECK_DAYS \<le> length (cum_vals w)
      then all_adjacent (\<le>) (tail RISING_CHECK_DAYS (cum_vals w))
      else True)"

definition cond_C :: "bar list \<Rightarrow> bool" where
  "cond_C w = (recent_bottom w \<and> enough_rebound w \<and> last_m_rising w)"

definition recent_low_occur :: "bar list \<Rightarrow> bool" where
  "recent_low_occur w =
     (let low_60 = Min (set (closes w))
      in low_60 \<in> set (tail PRICE_RECENT_LOW_WINDOW (closes w)))"

definition price_rising :: "bar list \<Rightarrow> bool" where
  "price_rising w =
     (let last_p_prices = tail PRICE_RISING_DAYS (closes w)
      in 2 \<le> length last_p_prices \<and> all_adjacent (<) last_p_prices)"

definition cond_D :: "bar list \<Rightarrow> bool" where
  "cond_D w = (recent_low_occur w \<and> price_rising w)"

definition has_oscillation :: "bar list \<Rightarrow> bool" where
  "has_oscillation w =
     (let osci_vals = tail RECENT_OSCILLATION_DAYS (map total_net w)
      in list_ex (\<lambda>x. 0 < x) osci_vals \<and> list_ex (\<lambda>x. x < 0) osci_vals
         \<and> OSCILLATION_MIN_RANGE < Max (set osci_vals) - Min (set osci_vals))"

definition cond_E :: "bar list \<Rightarrow> bool" where
  "cond_E w = (has_oscillation w \<and> cond_B w \<and> last_cum w < 0)"

subsection \<open>The volume and price pattern of the last two rows\<close>

text \<open>
  StockTrend.py has a function of its own named \<open>analyze_volume_price_pattern\<close>, called
  on the whole frame once all conditions pass; the name is taken above by the classifier
  of StockTrend2.py. Volume moves by more than 10 percent, price by more than 1 percent.
  The interpretation text is a table lookup on the pattern and is left out.
\<close>

datatype trend = Up | Flat | Down

definition volume_price_pattern :: "bar list \<Rightarrow> (trend \<times> trend) option" where
  "volume_price_pattern df =
     (if length df < 2 then None
      else
        (let vol_latest = volume (iloc_neg df 1); vol_prev = volume (iloc_neg df 2);
             price_latest = close_price (iloc_neg df 1);
             price_prev = close_price (iloc_neg df 2);
             vol_trend = (if vol_prev * (11 / 10) < vol_latest then Up
                          else if vol_latest < vol_prev * (9 / 10) then Down else Flat);
             price_trend = (if price_prev * (101 / 100) < price_latest then Up
                            else if price_latest < price_prev * (99 / 100) then Down
                            else Flat)
         in Some (vol_trend, price_trend)))"

text \<open>
  The returned \<open>stock_info\<close>; \<open>code\<close>, \<open>name\<close> and \<open>latest_date\<close> are copied from the
  frame and carry no logic. \<open>i_pattern\<close> is \<open>None\<close> for the source's "not analysed".
\<close>

record stock_info =
  i_cond_B :: bool
  i_cond_C :: bool
  i_cond_D :: bool
  i_cond_E :: bool
  i_all_pass :: bool
  i_latest_close :: rat
  i_pattern :: "(trend \<times> trend) option"

definition reversal_screen :: "bar list \<Rightarrow> stock_info" where
  "reversal_screen df =
     (let w = recent_data df;
          all_pass = (cond_B w \<and> cond_C w \<and> cond_D w \<and> cond_E w)
      in \<lparr>i_cond_B = cond_B w, i_cond_C = cond_C w, i_cond_D = cond_D w,
          i_cond_E = cond_E w, i_all_pass = all_pass,
          i_latest_close = close_price (iloc_neg df 1),
          i_pattern = (if all_pass then volume_price_pattern df else None)\<rparr>)"

section \<open>Series normalizer (StockTrend.py, fix_price_columns and analyze_stock_file)\<close>

subsection \<open>Raw rows\<close>

text \<open>
  \<open>read_csv(..., dtype=str)\<close> gives every cell as a string, or NaN where the field is
  empty: \<open>None\<close> here. The columns \<open>code\<close>, \<open>name\<close>, \<open>trades\<close>, \<open>amount\<close> and \<open>pe\<close> take
  no part in any test and are left out. A string is the list of its characters, each
  a code point below 256 (ASCII and Latin-1), and its length is their number, as
  Python's \<open>len\<close> counts; text with characters beyond that range is outside the model.
\<close>

type_synonym cell = "string option"

record raw_row =
  date_cell :: cell
  volume_cell :: cell
  open_cell :: cell
  high_cell :: cell
  low_cell :: cell
  close_cell :: cell
  foreign_net_cell :: cell
  fund_net_cell :: cell
  dealer_net_cell :: cell

text \<open>Python's \<open>\d\<close>: of the code points below 256 only the ten ASCII digits are decimal digits.\<close>

definition is_digit :: "char \<Rightarrow> bool" where
  "is_digit c = (let n = (of_char c :: nat) in 48 \<le> n \<and> n \<le> 57)"

text \<open>
  The characters \<open>str.strip()\<close> removes, below 256: tab to carriage return (9 to 13),
  the four separators 28 to 31, the space, next line (133) and the no-break space (160).
\<close>

definition is_space :: "char \<Rightarrow> bool" where
  "is_space c =
     (let n = (of_char c :: nat)
      in (9 \<le> n \<and> n \<le> 13) \<or> (28 \<le> n \<and> n \<le> 32) \<or> n = 133 \<or> n = 160)"

definition strip :: "string \<Rightarrow> string" where
  "strip s = rev (dropWhile is_space (rev (dropWhile is_space s)))"

subsection \<open>The regular expression of the repair\<close>

text \<open>
  \<open>\d+\.\d{1,3}\<close> tried at the head of a string: the digits are taken greedily, a dot
  must follow (giving digits back cannot help, the character after them would be a
  digit), then one to three digits, greedily. The result is the match and the rest.
\<close>

definition match_price :: "string \<Rightarrow> (string \<times> string) option" where
  "match_price s =
     (let whole = takeWhile is_digit s; after = dropWhile is_digit s
      in if whole = [] then None
         else (case after of
                 [] \<Rightarrow> None
               | c # r \<Rightarrow>
                   (let decimals = take 3 (takeWhile is_digit r)
                    in if c = CHR ''.'' \<and> decimals \<noteq> []
                       then Some (whole @ c # decimals, drop (length decimals) r)
                       else None)))"

lemma match_price_shorter:
  "match_price s = Some (m, rest) \<Longrightarrow> length rest < length s"
proof -
  assume a: "match_price s = Some (m, rest)"
  have len: "length (dropWhile is_digit s) \<le> length s"
    by (rule length_dropWhile_le)
  from a obtain c r where ar: "dropWhile is_digit s = c # r"
    and rest: "rest = drop (length (take 3 (takeWhile is_digit r))) r"
    by (auto simp: match_price_def Let_def split: if_splits list.splits)
  from ar len have "length r < length s" by simp
  with rest show ?thesis by simp
qed

text \<open>
  \<open>re.findall\<close>: the matches from left to right, each search resuming where the last
  match ended, and one character further on where there is no match.
\<close>

function findall_price :: "string \<Rightarrow> string list" where
  "findall_price s =
     (if s = [] then []
      else (case match_price s of
              Some (m, rest) \<Rightarrow> m # findall_price rest
            | None \<Rightarrow> findall_price (tl s)))"
  by pat_completeness auto
termination
  by (relation "measure length") (auto dest: match_price_shorter)

declare findall_price.simps [simp del]

subsection \<open>fix_price_columns\<close>

definition fix_price_columns :: "raw_row \<Rightarrow> raw_row" where
  "fix_price_columns row =
     (case open_cell row of
        None \<Rightarrow> row
      | Some v \<Rightarrow>
          (let open_val = strip v
           in if 12 < length open_val \<and> CHR ''.'' \<in> set open_val then
                (let prices = findall_price open_val
                 in if 4 \<le> length prices
                    then row\<lparr>open_cell := Some (prices ! 0), high_cell := Some (prices ! 1),
                             low_cell := Some (prices ! 2), close_cell := Some (prices ! 3)\<rparr>
                    else row\<lparr>open_cell := None\<rparr>)
              else row))"

subsection \<open>Coercion, filtering and sorting\<close>

text \<open>
  \<open>pd.to_numeric(col, errors='coerce')\<close>: pandas' number parser is not part of the
  repository and is a parameter \<open>num\<close>, which gives the number a string denotes and
  \<open>None\<close> (NaN) for a string that denotes none. An empty cell stays NaN.
\<close>

definition to_numeric :: "(string \<Rightarrow> rat option) \<Rightarrow> cell \<Rightarrow> rat option" where
  "to_numeric num c = (case c of None \<Rightarrow> None | Some s \<Rightarrow> num s)"

text \<open>
  The eight columns of \<open>dropna(subset=...)\<close> after coercion: a bar when all of them are
  numbers, and \<open>None\<close> when any is NaN.
\<close>

definition coerce_row :: "(string \<Rightarrow> rat option) \<Rightarrow> raw_row \<Rightarrow> bar option" where
  "coerce_row num row =
     do {
       o_p \<leftarrow> to_numeric num (open_cell row);
       h_p \<leftarrow> to_numeric num (high_cell row);
       l_p \<leftarrow> to_numeric num (low_cell row);
       c_p \<leftarrow> to_numeric num (close_cell row);
       f_n \<leftarrow> to_numeric num (foreign_net_cell row);
       t_n \<leftarrow> to_numeric num (fund_net_cell row);
       d_n \<leftarrow> to_numeric num (dealer_net_cell row);
       v \<leftarrow> to_numeric num (volume_cell row);
       Some \<lparr>open_price = o_p, high_price = h_p, low_price = l_p, close_price = c_p,
             volume = v, foreign_net = f_n, fund_net = t_n, dealer_net = d_n\<rparr>
     }"

definition dropna :: "(string \<Rightarrow> rat option) \<Rightarrow> raw_row list \<Rightarrow> (cell \<times> bar) list" where
  "dropna num rows =
     List.map_filter (\<lambda>row. map_option (Pair (date_cell row)) (coerce_row num row)) rows"

text \<open>
  \<open>df['date'].str.match(r'^\d{4}-\d{2}-\d{2}$', na=False)\<close>. In Python \<open>$\<close> also
  matches before a newline that ends the string.
\<close>

definition date_shape :: "string \<Rightarrow> bool" where
  "date_shape s =
     (case s of
        [y1, y2, y3, y4, d1, m1, m2, d2, n1, n2] \<Rightarrow>
          is_digit y1 \<and> is_digit y2 \<and> is_digit y3 \<and> is_digit y4 \<and> d1 = CHR ''-''
          \<and> is_digit m1 \<and> is_digit m2 \<and> d2 = CHR ''-'' \<and> is_digit n1 \<and> is_digit n2
      | _ \<Rightarrow> False)"

definition date_matches :: "string \<Rightarrow> bool" where
  "date_matches s =
     (date_shape s \<or> (s \<noteq> [] \<and> last s = CHR 0x0A \<and> date_shape (butlast s)))"

definition match_dates :: "(cell \<times> bar) list \<Rightarrow> (string \<times> bar) list" where
  "match_dates rows =
     List.map_filter
       (\<lambda>(d, b). case d of None \<Rightarrow> None
                  | Some s \<Rightarrow> if date_matches s then Some (s, b) else None) rows"

text \<open>
  \<open>pd.to_datetime(df['date'])\<close>: pandas' date parser is a parameter \<open>dt\<close> into any
  linearly ordered type of time stamps. It raises on a string that is no date, which
  the \<open>except\<close> clause of the source turns into the result \<open>None\<close>.
\<close>

definition parse_dates :: "(string \<Rightarrow> 'd option) \<Rightarrow> (string \<times> bar) list \<Rightarrow> ('d \<times> bar) list option"
  where
  "parse_dates dt rows = those (map (\<lambda>(s, b). map_option (\<lambda>t. (t, b)) (dt s)) rows)"

text \<open>
  The frame after \<open>sort_values('date')\<close> and \<open>reset_index(drop=True)\<close>; positions in the
  list are the new index. pandas does not promise an order among rows of one date; the
  sort here keeps their order, and nothing below relies on it.
\<close>

definition normalize ::
  "(string \<Rightarrow> rat option) \<Rightarrow> (string \<Rightarrow> ('d :: linorder) option) \<Rightarrow> raw_row list
     \<Rightarrow> ('d \<times> bar) list option" where
  "normalize num dt raw =
     map_option (sort_key fst)
       (parse_dates dt (match_dates (dropna num (map fix_price_columns raw))))"

definition analyze_stock_file ::
  "(string \<Rightarrow> rat option) \<Rightarrow> (string \<Rightarrow> ('d :: linorder) option) \<Rightarrow> raw_row list
     \<Rightarrow> stock_info option" where
  "analyze_stock_file num dt raw =
     (if raw = [] then None
      else (case normalize num dt raw of
              None \<Rightarrow> None
            | Some df \<Rightarrow>
                if length df < MIN_DATA_DAYS then None
                else Some (reversal_screen (map snd df))))"

section \<open>Threshold screen (StockTrend_Gemini.py, screen_stocks)\<close>

text \<open>
  The keyword arguments of \<open>screen_stocks\<close> and their defaults. The two window lengths are
  natural numbers: pandas refuses a negative window with an exception.
\<close>

record screen_config =
  use_price :: bool
  use_ma :: bool
  use_vol :: bool
  use_min_vol :: bool
  use_inst :: bool
  use_shape :: bool
  max_price :: rat
  vol_ratio_limit :: rat
  min_volume :: rat
  shadow_limit :: rat
  ma_short :: nat
  ma_long :: nat

definition default_config :: screen_config where
  "default_config =
     \<lparr>use_price = True, use_ma = True, use_vol = True, use_min_vol = True,
      use_inst = True, use_shape = True, max_price = 100, vol_ratio_limit = 12 / 10,
      min_volume = 5000, shadow_limit = 2 / 10, ma_short = 5, ma_long = 20\<rparr>"

text \<open>
  \<open>col.rolling(window).mean()\<close> read at the last row: NaN (\<open>None\<close>) until \<open>window\<close> rows
  are there, and for a window of no rows.
\<close>

definition rolling_mean_last :: "nat \<Rightarrow> rat list \<Rightarrow> rat option" where
  "rolling_mean_last window xs =
     (if window = 0 \<or> length xs < window then None
      else Some (sum_list (tail window xs) / of_nat window))"

text \<open>The six conditions on the latest row; a comparison with NaN is false.\<close>

definition c_price :: "screen_config \<Rightarrow> bar list \<Rightarrow> bool" where
  "c_price cfg df = (close_price (iloc_neg df 1) \<le> max_price cfg)"

definition c_ma :: "screen_config \<Rightarrow> bar list \<Rightarrow> bool" where
  "c_ma cfg df =
     (case (rolling_mean_last (ma_short cfg) (map close_price df),
            rolling_mean_last (ma_long cfg) (map close_price df)) of
        (Some ma_s, Some ma_l) \<Rightarrow> ma_s < close_price (iloc_neg df 1) \<and> ma_l < ma_s
      | _ \<Rightarrow> False)"

text \<open>\<open>actual_vol_ratio\<close>: 0 when the volume average is 0, NaN when it is NaN.\<close>

definition actual_vol_ratio :: "screen_config \<Rightarrow> bar list \<Rightarrow> rat option" where
  "actual_vol_ratio cfg df =
     (case rolling_mean_last (ma_short cfg) (map volume df) of
        None \<Rightarrow> None
      | Some vol_ma \<Rightarrow> if vol_ma \<noteq> 0 then Some (volume (iloc_neg df 1) / vol_ma) else Some 0)"

definition c_vol :: "screen_config \<Rightarrow> bar list \<Rightarrow> bool" where
  "c_vol cfg df =
     (case actual_vol_ratio cfg df of None \<Rightarrow> False | Some r \<Rightarrow> vol_ratio_limit cfg \<le> r)"

definition c_min_vol :: "screen_config \<Rightarrow> bar list \<Rightarrow> bool" where
  "c_min_vol cfg df = (min_volume cfg \<le> volume (iloc_neg df 1))"

definition c_inst :: "screen_config \<Rightarrow> bar list \<Rightarrow> bool" where
  "c_inst cfg df = (0 < total_net (iloc_neg df 1))"

text \<open>
  The upper shadow over the candle's range plus 0.01. A bar with its high exactly 0.01
  under its low makes the divisor 0: floating point division then gives an infinity of
  the sign of the upper shadow, or NaN, and no exception; the ratio is \<open>None\<close> there and
  the comparison is that of the infinity.
\<close>

definition screen_upper_shadow :: "bar \<Rightarrow> rat" where
  "screen_upper_shadow b = high_price b - max (open_price b) (close_price b)"

definition actual_shadow_ratio :: "bar \<Rightarrow> rat option" where
  "actual_shadow_ratio b =
     (let candle_range = high_price b - low_price b
      in if candle_range + 1 / 100 = 0 then None
         else Some (screen_upper_shadow b / (candle_range + 1 / 100)))"

definition c_shape :: "screen_config \<Rightarrow> bar list \<Rightarrow> bool" where
  "c_shape cfg df =
     (case actual_shadow_ratio (iloc_neg df 1) of
        None \<Rightarrow> screen_upper_shadow (iloc_neg df 1) < 0
      | Some r \<Rightarrow> r \<le> shadow_limit cfg)"

text \<open>
  The returned dictionary, without name and date. The source rounds the change, the
  volume ratio and the shadow ratio for display; they are exact here. The change is
  \<open>None\<close> when the previous close is 0 (an infinity or NaN in the source).
\<close>

record pass_record =
  p_close :: rat
  p_change_percent :: "rat option"
  p_vol_ratio :: "rat option"
  p_inst_total :: rat
  p_shadow_ratio :: "rat option"

definition pass_record_of :: "screen_config \<Rightarrow> bar list \<Rightarrow> pass_record" where
  "pass_record_of cfg df =
     (let latest_row = iloc_neg df 1; prev = iloc_neg df 2
      in \<lparr>p_close = close_price latest_row,
          p_change_percent =
            (if close_price prev = 0 then None
             else Some ((close_price latest_row - close_price prev) / close_price prev * 100)),
          p_vol_ratio = actual_vol_ratio cfg df,
          p_inst_total = total_net latest_row,
          p_shadow_ratio = actual_shadow_ratio latest_row\<rparr>)"

text \<open>
  \<open>screen_stocks\<close> on rows with parsed dates. \<open>df.iloc[-1]\<close> and \<open>df.iloc[-2]\<close> raise
  IndexError on a frame of fewer than two rows, and the \<open>except\<close> clause returns \<open>None\<close>.
\<close>

definition screen_stocks ::
  "screen_config \<Rightarrow> (('d :: linorder) \<times> bar) list \<Rightarrow> pass_record option" where
  "screen_stocks cfg rows =
     (let df = map snd (sort_key fst rows)
      in if length df < ma_long cfg then None
         else if length df < 2 then None
         else if list_all id
                   [if use_price cfg then c_price cfg df else True,
                    if use_ma cfg then c_ma cfg df else True,
                    if use_vol cfg then c_vol cfg df else True,
                    if use_min_vol cfg then c_min_vol cfg df else True,
                    if use_inst cfg then c_inst cfg df else True,
                    if use_shape cfg then c_shape cfg df else True]
              then Some (pass_record_of cfg df)
         else None)"

section \<open>Example series for the classifier\<close>

definition flat_bar :: "rat \<Rightarrow> rat \<Rightarrow> bar" where
  "flat_bar p v = ohlcv p p p p v"

text \<open>
  Ten bars: seven quiet ones, then three rising closes on volumes 100, 200, 300, so
  that the latest bar is a spike and so was the bar before it.
\<close>

definition rising_on_second_spike_day :: "bar list" where
  "rising_on_second_spike_day =
     [flat_bar 10 100, flat_bar 10 100, flat_bar 10 100, flat_bar 10 100, flat_bar 10 100,
      flat_bar 10 100, flat_bar 10 100,
      ohlcv 10 11 10 11 100, ohlcv 11 12 9 12 200, ohlcv 12 15 11 15 300]"

text \<open>Ten bars of even volume whose last three closes fall under a top of 22.\<close>

definition falling_three_days :: "bar list" where
  "falling_three_days =
     [flat_bar 20 100, flat_bar 20 100, flat_bar 20 100, flat_bar 20 100, flat_bar 20 100,
      flat_bar 20 100, flat_bar 20 100,
      ohlcv 20 21 18 19 100, ohlcv 19 22 17 18 100, ohlcv 18 19 15 16 100]"

text \<open>Ten bars with three rising closes, the latest alone on a volume spike.\<close>

definition rising_on_first_spike_day :: "bar list" where
  "rising_on_first_spike_day =
     [flat_bar 10 100, flat_bar 10 100, flat_bar 10 100, flat_bar 10 100, flat_bar 10 100,
      flat_bar 10 100, flat_bar 10 100,
      ohlcv 10 11 10 11 100, ohlcv 11 12 11 12 100, ohlcv 12 13 12 13 300]"

text \<open>
  Ten bars: four bars in a row that close above their open, then a latest bar that
  closes below its open on the highest volume of the run.
\<close>

definition four_red_then_green :: "bar list" where
  "four_red_then_green =
     [flat_bar 10 100, flat_bar 10 100, flat_bar 10 100, flat_bar 10 100, flat_bar 10 100,
      ohlcv 10 11 10 11 100, ohlcv 11 12 11 12 100, ohlcv 12 13 12 13 100,
      ohlcv 13 14 13 14 200, ohlcv 14 14 12 12 300]"

text \<open>
  Ten bars: a spike on the day before the latest, whose body runs from 12 to 15, and a
  latest bar on ordinary volume that closes at 9, below the body of the spike.
\<close>

definition close_below_spike_body :: "bar list" where
  "close_below_spike_body =
     [flat_bar 12 100, flat_bar 12 100, flat_bar 12 100, flat_bar 12 100, flat_bar 12 100,
      flat_bar 12 100, flat_bar 12 100, flat_bar 12 100,
      ohlcv 12 15 12 15 300, ohlcv 14 14 9 9 100]"

text \<open>
  The state once sections 1 and 2 have run: the four locals as they leave them, with
  the accumulators still empty.
\<close>

definition settled :: "bar list \<Rightarrow> tally" where
  "settled recent =
     tally0\<lparr>high_volume := is_high_volume recent, spike_day := high_volume_day recent,
            support := support_price recent, resistance := Some (resistance_price recent)\<rparr>"

definition locals_set :: "bar list \<Rightarrow> tally \<Rightarrow> bool" where
  "locals_set recent t =
     (high_volume t = is_high_volume recent \<and> spike_day t = high_volume_day recent
      \<and> support t = support_price recent \<and> resistance t = Some (resistance_price recent))"

text \<open>What a detector adds to the score when the locals are set: its weight on the bars.\<close>

definition weight :: "detector \<Rightarrow> bar list \<Rightarrow> int" where
  "weight d recent = action_score (apply_detector d recent (settled recent))"

text \<open>The latest bar is the first day of a spike: section 8 then sets the score to 0.\<close>

definition observe_only :: "bar list \<Rightarrow> bool" where
  "observe_only recent = (is_high_volume recent \<and> high_volume_day recent = 1)"

text \<open>The seven detectors that only read the locals.\<close>

definition later_detectors :: "detector list" where
  "later_detectors =
     [ThreeSoldiers, Fractals, Shadows, Trend, VolumePattern, ConsecutiveRed, HighVolumeRule]"

section \<open>Example inputs for the reversal screen\<close>

text \<open>
  Nets for which the source's integer and floating point sums are exact: whole lots of
  at most \<open>2^40\<close> in size. Three of them, and sixty running sums of three, stay far
  below \<open>2^53\<close> and \<open>2^63\<close>.
\<close>

definition whole_lots :: "rat \<Rightarrow> bool" where
  "whole_lots x = (x \<in> \<int> \<and> \<bar>x\<bar> \<le> 2 ^ 40)"

definition nets_in_range :: "bar \<Rightarrow> bool" where
  "nets_in_range b =
     (whole_lots (foreign_net b) \<and> whole_lots (fund_net b) \<and> whole_lots (dealer_net b))"

text \<open>A bar of volume 1000 that opens and closes at \<open>c\<close> with the three nets given.\<close>

definition net_bar :: "rat \<Rightarrow> rat \<Rightarrow> rat \<Rightarrow> rat \<Rightarrow> bar" where
  "net_bar c f t d =
     \<lparr>open_price = c, high_price = c, low_price = c, close_price = c, volume = 1000,
      foreign_net = f, fund_net = t, dealer_net = d\<rparr>"

text \<open>
  Sixty bars whose last three carry the nets (10, 5, 3), (8, 2, 1) and (12, 4, 2).
\<close>

definition buying_at_the_end :: "bar list" where
  "buying_at_the_end =
     replicate 57 (net_bar 50 0 0 0) @ [net_bar 50 10 5 3, net_bar 50 8 2 1, net_bar 50 12 4 2]"

text \<open>Fifty-five days of selling 100 lots, then five days of buying 200.\<close>

definition sold_then_bought :: "bar list" where
  "sold_then_bought =
     replicate 55 (net_bar 50 (- 60) (- 30) (- 10)) @ replicate 5 (net_bar 50 120 50 30)"

text \<open>
  Sixty closes whose lowest value, 40, stands on the second day and again on the
  fifth day from the end, with the last close above the one before it.
\<close>

definition low_twice_then_up :: "bar list" where
  "low_twice_then_up =
     [net_bar 50 0 0 0, net_bar 40 0 0 0] @ replicate 53 (net_bar 50 0 0 0)
     @ [net_bar 40 0 0 0, net_bar 45 0 0 0, net_bar 44 0 0 0, net_bar 43 0 0 0,
        net_bar 46 0 0 0]"



section \<open>Example inputs for the normalizer\<close>

text \<open>A price written with exactly three decimals, as in the source's data files.\<close>

definition is_price3 :: "string \<Rightarrow> bool" where
  "is_price3 p =
     (let whole = takeWhile is_digit p
      in whole \<noteq> []
         \<and> (case dropWhile is_digit p of
               [] \<Rightarrow> False
             | c # decimals \<Rightarrow> c = CHR ''.'' \<and> length decimals = 3 \<and> list_all is_digit decimals))"

text \<open>A row whose four prices have run together in the \<open>open\<close> field.\<close>

definition glued_row :: raw_row where
  "glued_row =
     \<lparr>date_cell = Some ''2024-03-20'', volume_cell = Some ''1000'',
      open_cell = Some ''12.50012.60012.40012.550'', high_cell = None, low_cell = None,
      close_cell = None, foreign_net_cell = Some ''0'', fund_net_cell = Some ''0'',
      dealer_net_cell = Some ''0''\<rparr>"

text \<open>
  Rows whose \<open>open\<close> field is four prices run together, written with two decimals
  (12.50, 12.60, 12.40, 12.55), and with one or two (10.5, 10.6, 10.4, 10.55).
\<close>

definition glued_row_of :: "string \<Rightarrow> raw_row" where
  "glued_row_of v =
     \<lparr>date_cell = Some ''2024-03-20'', volume_cell = Some ''1000'', open_cell = Some v,
      high_cell = None, low_cell = None, close_cell = None, foreign_net_cell = Some ''0'',
      fund_net_cell = Some ''0'', dealer_net_cell = Some ''0''\<rparr>"

definition two_decimals_row :: raw_row where
  "two_decimals_row = glued_row_of (''12.50'' @ ''12.60'' @ ''12.40'' @ ''12.55'')"

definition mixed_decimals_row :: raw_row where
  "mixed_decimals_row = glued_row_of (''10.5'' @ ''10.6'' @ ''10.4'' @ ''10.55'')"

text \<open>A row whose \<open>open\<close> field is long and holds only two prices.\<close>

definition broken_row :: raw_row where
  "broken_row =
     \<lparr>date_cell = Some ''2024-03-20'', volume_cell = Some ''1000'',
      open_cell = Some ''12.50012.600xx'', high_cell = Some ''12.600'', low_cell = Some ''12.400'',
      close_cell = Some ''12.550'', foreign_net_cell = Some ''0'', fund_net_cell = Some ''0'',
      dealer_net_cell = Some ''0''\<rparr>"

text \<open>
  Parsers to run the normalizer with: unsigned whole numbers, and dates read as the
  number \<open>yyyymmdd\<close>, which orders dates of this shape as the calendar does. On the
  strings of the examples they agree with pandas.
\<close>

definition digit_value :: "char \<Rightarrow> nat" where
  "digit_value c = of_char c - 48"

definition decimal_value :: "string \<Rightarrow> nat" where
  "decimal_value s = foldl (\<lambda>n c. 10 * n + digit_value c) 0 s"

definition plain_number :: "string \<Rightarrow> rat option" where
  "plain_number s =
     (if s \<noteq> [] \<and> list_all is_digit s then Some (of_nat (decimal_value s)) else None)"

definition iso_date :: "string \<Rightarrow> nat option" where
  "iso_date s = (if date_shape s then Some (decimal_value (filter is_digit s)) else None)"

text \<open>
  Sixty rows on sixty different days at a price of 50, followed by a second row for
  the last of those days at a price of 51; and the frame they normalize to.
\<close>

definition day_row :: "string \<Rightarrow> string \<Rightarrow> raw_row" where
  "day_row d c =
     \<lparr>date_cell = Some d, volume_cell = Some ''1000'', open_cell = Some c,
      high_cell = Some c, low_cell = Some c, close_cell = Some c,
      foreign_net_cell = Some ''0'', fund_net_cell = Some ''0'', dealer_net_cell = Some ''0''\<rparr>"

definition sixty_dates :: "string list" where
  "sixty_dates =
     concat (map (\<lambda>m. map (\<lambda>d. ''2024-'' @ m @ ''-'' @ d)
                       [''01'', ''02'', ''03'', ''04'', ''05'', ''06'', ''07'', ''08'', ''09'',
                        ''10'', ''11'', ''12'', ''13'', ''14'', ''15'', ''16'', ''17'', ''18'',
                        ''19'', ''20''])
                 [''01'', ''02'', ''03''])"

definition duplicated_day :: "raw_row list" where
  "duplicated_day = map (\<lambda>d. day_row d ''50'') sixty_dates @ [day_row ''2024-03-20'' ''51'']"

definition duplicated_day_frame :: "(nat \<times> bar) list" where
  "duplicated_day_frame =
     concat (map (\<lambda>m. map (\<lambda>d. (20240000 + 100 * m + d, flat_bar 50 1000))
                       [1, 2, 3, 4, 5, 6, 7, 8, 9, 10, 11, 12, 13, 14, 15, 16, 17, 18, 19, 20])
                 [1, 2, 3])
     @ [(20240320, flat_bar 51 1000)]"

section \<open>Example inputs for the threshold screen\<close>

text \<open>The defaults with every condition switched off, and with the price ceiling alone.\<close>

definition no_conditions :: screen_config where
  "no_conditions =
     default_config\<lparr>use_price := False, use_ma := False, use_vol := False,
                    use_min_vol := False, use_inst := False, use_shape := False\<rparr>"

definition price_only :: screen_config where
  "price_only = no_conditions\<lparr>use_price := True, max_price := 100\<rparr>"

text \<open>Twenty days dated 1 to 20, the last of them closing at \<open>c\<close>.\<close>

definition twenty_days :: "rat \<Rightarrow> (nat \<times> bar) list" where
  "twenty_days c =
     map (\<lambda>d. (d, flat_bar 90 1000)) [1, 2, 3, 4, 5, 6, 7, 8, 9, 10, 11, 12, 13, 14, 15, 16, 17, 18, 19]
     @ [(20, flat_bar c 1000)]"

text \<open>
  Every enabled condition holds: a condition whose flag is off asks nothing. The
  conditions are read on the frame sorted by date.
\<close>

definition enabled_conditions_hold :: "screen_config \<Rightarrow> bar list \<Rightarrow> bool" where
  "enabled_conditions_hold cfg df =
     ((use_price cfg \<longrightarrow> c_price cfg df) \<and> (use_ma cfg \<longrightarrow> c_ma cfg df)
      \<and> (use_vol cfg \<longrightarrow> c_vol cfg df) \<and> (use_min_vol cfg \<longrightarrow> c_min_vol cfg df)
      \<and> (use_inst cfg \<longrightarrow> c_inst cfg df) \<and> (use_shape cfg \<longrightarrow> c_shape cfg df))"

definition sorted_frame :: "(('d :: linorder) \<times> bar) list \<Rightarrow> bar list" where
  "sorted_frame rows = map snd (sort_key fst rows)"

section \<open>Properties of the classifier\<close>

lemmas detector_defs =
  detect_high_volume_def detect_support_def detect_three_soldiers_def
  detect_bottom_fractal_def detect_top_fractal_def detect_fractals_def
  detect_violent_swing_def detect_lower_shadow_def detect_upper_shadow_def
  detect_shadows_def detect_trend_def detect_volume_ladder_def detect_small_body_def
  detect_volume_pattern_def detect_consecutive_red_def detect_high_volume_rule_def
  emit_def emit_risk_def

lemma length_tail: "length (tail n xs) = min n (length xs)"
  by (simp add: tail_def)

lemma nth_tail: "i < min n (length xs) \<Longrightarrow> tail n xs ! i = xs ! (length xs - n + i)"
  by (simp add: tail_def)

lemma tail_map: "tail n (map f xs) = map f (tail n xs)"
  by (simp add: tail_def drop_map)

subsection \<open>The score chain as it runs\<close>

text \<open>
  The test \<open>score \<ge> 8\<close> stands behind \<open>score \<ge> 5\<close>, and \<open>score \<le> -8\<close> behind
  \<open>score \<le> -5\<close>, so neither is ever reached: the chain has three outcomes.
\<close>

lemma score_action_cases:
  "score_action s =
     (if 5 \<le> s then (Enter, Low) else if s \<le> - 5 then (Reduce, High) else (Hold, Medium))"
  by (simp add: score_action_def)

lemma score_action_never_heavy_or_exit:
  "fst (score_action s) \<noteq> HeavyLoad \<and> fst (score_action s) \<noteq> Exit"
  by (simp add: score_action_def)

text \<open>
  C1. The claim maps a score of 8 or more to heavy load and a score of -8 or less to
  exit. On the rising series the detectors add up to 14 with no support break, and the
  action is enter; on the falling series they add up to -8, and the action is reduce.
\<close>

theorem score_of_14_enters_and_score_of_minus_8_reduces:
  "analyze_volume_price_pattern rising_on_second_spike_day =
       \<lparr>r_signals = [SigHighVolumeDay1, SigAboveSupport 12, SigRedThreeAboveSupport,
                     SigBottomFractalAboveSupport, SigHighVolumeDay23AboveSupport],
        r_action = Enter, r_risk_level = Low, r_summary = Summary 5 [] Enter,
        r_score = Some 14\<rparr>
   \<and> analyze_volume_price_pattern falling_three_days =
       \<lparr>r_signals = [SigGreenThreeBelowResistance, SigTopFractalBelowResistance],
        r_action = Reduce, r_risk_level = High,
        r_summary = Summary 2 [GreenThree, TopFractal] Reduce, r_score = Some (- 8)\<rparr>"
  by code_simp

subsection \<open>The support break\<close>

text \<open>
  The closing step does what the override says: a tally whose risk factors hold the
  support break is concluded as exit at high risk, whatever its score.
\<close>

lemma final_decision_override:
  "BrokeSupport \<in> set rf \<Longrightarrow> final_decision s rf = (Exit, High)"
  by (simp add: final_decision_def)

text \<open>
  But the factor is never there. Section 2 takes the support price from the latest bar
  alone, as the lower end of its body, and compares the same bar's close with it: the
  close is never below. No other section adds the factor, so no series and no order of
  evaluation records it, and the override never acts.
\<close>

lemma apply_detector_keeps_broke:
  "(BrokeSupport \<in> set (risk_factors (apply_detector d recent t)))
     = (BrokeSupport \<in> set (risk_factors t))"
  by (cases d) (simp_all add: detector_defs Let_def split: option.splits)

lemma run_keeps_broke:
  "(BrokeSupport \<in> set (risk_factors (run ds recent t)))
     = (BrokeSupport \<in> set (risk_factors t))"
proof (induction ds arbitrary: t)
  case Nil
  show ?case by (simp add: run_def)
next
  case (Cons d ds)
  have "run (d # ds) recent t = run ds recent (apply_detector d recent t)"
    by (simp add: run_def)
  then show ?case
    using Cons.IH [of "apply_detector d recent t"] apply_detector_keeps_broke [of d recent t]
    by simp
qed

lemma broke_support_never_recorded:
  "BrokeSupport \<notin> set (risk_factors (run ds recent tally0))"
  by (simp add: run_keeps_broke tally0_def)

lemma exit_never_returned: "r_action (analyze_volume_price_pattern df) \<noteq> Exit"
proof (cases "length df < 10")
  case True
  then show ?thesis by (simp add: analyze_volume_price_pattern_def)
next
  case False
  then show ?thesis
    using broke_support_never_recorded [of evaluation_order "tail 10 df"]
      score_action_never_heavy_or_exit
    by (simp add: analyze_volume_price_pattern_def conclude_def final_decision_def Let_def)
qed

text \<open>
  C2. The day before the latest was a volume spike with a body from 12 to 15, and the
  latest bar closes at 9, below that body: the claim expects the support break to be
  recorded and the action to be exit at high risk. The classifier records one signal,
  the top fractal, no support break, and returns hold at medium risk.
\<close>

theorem close_below_spike_body_is_not_exit:
  "analyze_volume_price_pattern close_below_spike_body =
       \<lparr>r_signals = [SigTopFractalBelowResistance], r_action = Hold,
        r_risk_level = Medium, r_summary = Summary 1 [TopFractal] Hold,
        r_score = Some (- 4)\<rparr>"
  by code_simp

subsection \<open>Order of evaluation\<close>

lemma run_Cons: "run (d # ds) recent t = run ds recent (apply_detector d recent t)"
  by (simp add: run_def)

lemma locals_set_settled: "locals_set recent (settled recent)"
  by (simp add: locals_set_def settled_def)

text \<open>Sections 1 and 2, in this order, set the four locals, whatever they were.\<close>

lemma first_two_set_locals:
  "locals_set recent (detect_support recent (detect_high_volume recent t))"
  by (simp add: locals_set_def detector_defs support_price_def Let_def split: option.splits)

text \<open>No detector changes locals that are set.\<close>

lemma apply_detector_keeps_locals:
  "locals_set recent t \<Longrightarrow> locals_set recent (apply_detector d recent t)"
  by (cases d)
     (simp_all add: locals_set_def detector_defs support_price_def Let_def split: option.splits)

text \<open>
  With the locals set and no reset firing, a detector adds its weight to the score,
  whatever the score and the other accumulators are.
\<close>

lemma apply_detector_additive:
  assumes "locals_set recent t" "\<not> violent_swing recent" "\<not> observe_only recent"
  shows "action_score (apply_detector d recent t) = action_score t + weight d recent"
  using assms
  by (cases d)
     (simp_all add: weight_def settled_def tally0_def locals_set_def observe_only_def
        detector_defs support_price_def above_support_def below_true_resistance_def
        below_resistance_def consecutive_red_fires_def Let_def split: option.splits)

lemma run_additive:
  assumes "\<not> violent_swing recent" "\<not> observe_only recent"
  shows "locals_set recent t \<Longrightarrow>
     action_score (run ds recent t)
       = action_score t + sum_list (map (\<lambda>d. weight d recent) ds)"
proof (induction ds arbitrary: t)
  case Nil
  show ?case by (simp add: run_def)
next
  case (Cons d ds)
  have "locals_set recent (apply_detector d recent t)"
    using Cons.prems by (rule apply_detector_keeps_locals)
  from Cons.IH [OF this] apply_detector_additive [OF Cons.prems assms, of d]
  show ?case by (simp add: run_Cons)
qed

lemma first_two_score:
  "action_score (detect_support recent (detect_high_volume recent tally0))
     = weight HighVolumeClass recent + weight SupportResistance recent"
  by (simp add: weight_def settled_def tally0_def detector_defs support_price_def Let_def
      split: option.splits)

lemma sum_list_weight_perm:
  assumes "mset ds = mset ds'"
  shows "sum_list (map (f :: detector \<Rightarrow> int) ds) = sum_list (map f ds')"
proof -
  have "sum_list (map f ds) = sum_mset (image_mset f (mset ds))"
    by (metis mset_map sum_mset_sum_list)
  also have "\<dots> = sum_mset (image_mset f (mset ds'))"
    using assms by simp
  also have "\<dots> = sum_list (map f ds')"
    by (metis mset_map sum_mset_sum_list)
  finally show ?thesis .
qed

text \<open>
  C3, as stated, fails, in two ways. Two detectors assign 0 to the score instead of
  adding to it: on the first series the latest bar is the first day of a spike, the
  source's order ends at 0, and with section 8 run third the score is 5, while the
  weights add up to 7. And the sections are not independent: on the second series no
  reset fires, and running the three soldiers before section 2 has assigned the
  support price gives 11 where the source's order gives 14.
\<close>

theorem score_depends_on_order_counterexample:
  "mset [HighVolumeClass, SupportResistance, HighVolumeRule, ThreeSoldiers, Fractals,
         Shadows, Trend, VolumePattern, ConsecutiveRed] = mset evaluation_order
   \<and> action_score (run evaluation_order (tail 10 rising_on_first_spike_day) tally0) = 0
   \<and> action_score
        (run [HighVolumeClass, SupportResistance, HighVolumeRule, ThreeSoldiers, Fractals,
              Shadows, Trend, VolumePattern, ConsecutiveRed]
          (tail 10 rising_on_first_spike_day) tally0) = 5
   \<and> sum_list (map (\<lambda>d. weight d (tail 10 rising_on_first_spike_day)) evaluation_order) = 7
   \<and> mset [HighVolumeClass, ThreeSoldiers, SupportResistance, Fractals, Shadows, Trend,
           VolumePattern, ConsecutiveRed, HighVolumeRule] = mset evaluation_order
   \<and> \<not> violent_swing (tail 10 rising_on_second_spike_day)
   \<and> \<not> observe_only (tail 10 rising_on_second_spike_day)
   \<and> action_score (run evaluation_order (tail 10 rising_on_second_spike_day) tally0) = 14
   \<and> action_score
        (run [HighVolumeClass, ThreeSoldiers, SupportResistance, Fractals, Shadows, Trend,
              VolumePattern, ConsecutiveRed, HighVolumeRule]
          (tail 10 rising_on_second_spike_day) tally0) = 11"
  by code_simp

text \<open>
  C3, amended. When neither reset fires (no shadow of the latest bar exceeds twice its
  body, and the latest bar is not the first day of a spike), the score is the sum of
  the nine detectors' weights, and every order that runs section 1 and then section 2
  first and the other seven detectors after them, in any order, gives that score.
\<close>

theorem score_order_independent_without_reset:
  assumes "\<not> violent_swing recent" and "\<not> observe_only recent"
    and "mset ds = mset later_detectors"
  shows "action_score (run (HighVolumeClass # SupportResistance # ds) recent tally0)
           = action_score (run evaluation_order recent tally0)
       \<and> action_score (run evaluation_order recent tally0)
           = sum_list (map (\<lambda>d. weight d recent) evaluation_order)"
proof -
  let ?t2 = "detect_support recent (detect_high_volume recent tally0)"
  have l: "locals_set recent ?t2" by (rule first_two_set_locals)
  have r: "action_score (run (HighVolumeClass # SupportResistance # es) recent tally0)
        = weight HighVolumeClass recent + weight SupportResistance recent
          + sum_list (map (\<lambda>d. weight d recent) es)" for es
    using run_additive [OF assms(1,2) l, of es] first_two_score [of recent]
    by (simp add: run_Cons)
  have e: "evaluation_order = HighVolumeClass # SupportResistance # later_detectors"
    by (simp add: evaluation_order_def later_detectors_def)
  have "sum_list (map (\<lambda>d. weight d recent) ds)
      = sum_list (map (\<lambda>d. weight d recent) later_detectors)"
    using assms(3) by (rule sum_list_weight_perm)
  then show ?thesis
    using r [of ds] r [of later_detectors] by (simp add: e)
qed

theorem score_order_independent_without_reset_witness:
  "\<not> violent_swing (tail 10 rising_on_second_spike_day)
   \<and> \<not> observe_only (tail 10 rising_on_second_spike_day)
   \<and> mset (rev later_detectors) = mset later_detectors
   \<and> action_score (run (HighVolumeClass # SupportResistance # rev later_detectors)
        (tail 10 rising_on_second_spike_day) tally0) = 14
   \<and> sum_list (map (\<lambda>d. weight d (tail 10 rising_on_second_spike_day)) evaluation_order) = 14"
proof -
  let ?r = "tail 10 rising_on_second_spike_day"
  have a: "\<not> violent_swing ?r" by code_simp
  have b: "\<not> observe_only ?r" by code_simp
  have c: "mset (rev later_detectors) = mset later_detectors" by simp
  have d: "action_score (run evaluation_order ?r tally0) = 14" by code_simp
  from score_order_independent_without_reset [OF a b c] a b c d show ?thesis by simp
qed

subsection \<open>The run of red bars\<close>

lemma latest_in_tail:
  assumes "recent \<noteq> []" "0 < n"
  shows "latest recent \<in> set (tail n recent)"
proof -
  have "latest recent = last recent"
    using assms(1) by (simp add: latest_def iloc_neg_def last_conv_nth)
  moreover have lt: "length recent - n < length recent"
    using assms by (cases recent) auto
  then have "tail n recent \<noteq> []"
    by (simp add: tail_def)
  moreover have "last (tail n recent) = last recent"
    using lt by (simp add: tail_def)
  ultimately show ?thesis
    by (metis last_in_set)
qed

lemma red_count_full:
  assumes "4 \<le> red_count recent" "b \<in> set (tail 4 recent)"
  shows "open_price b < close_price b"
proof -
  let ?P = "\<lambda>b. open_price b < close_price b"
  let ?xs = "tail 4 recent"
  have "length (filter ?P ?xs) + length (filter (\<lambda>x. \<not> ?P x) ?xs) = length ?xs"
    by (rule sum_length_filter_compl)
  moreover have "length ?xs \<le> 4"
    by (simp add: length_tail)
  ultimately have "length (filter (\<lambda>x. \<not> ?P x) ?xs) = 0"
    using assms(1) unfolding red_count_def by linarith
  then have "filter (\<lambda>x. \<not> ?P x) ?xs = []"
    by simp
  then show ?thesis
    using assms(2) by (simp add: filter_empty_conv)
qed

text \<open>
  The four bars counted include the latest one, which the inner test then wants to
  close below its open: the two cannot hold together, and the detector never fires,
  on any bars and in any state.
\<close>

lemma consecutive_red_never_fires: "\<not> consecutive_red_fires recent t"
proof
  assume a: "consecutive_red_fires recent t"
  then have "recent \<noteq> []" "4 \<le> red_count recent"
    and g: "close_price (latest recent) < open_price (latest recent)"
    by (auto simp: consecutive_red_fires_def)
  then have "open_price (latest recent) < close_price (latest recent)"
    using red_count_full latest_in_tail by (metis zero_less_numeral)
  with g show False by simp
qed

text \<open>
  C5. Four red bars followed by a green latest bar on a volume spike: the claim expects
  the strong sell signal, 4 points off and a risk factor. The classifier reports the
  spike and the rejection at resistance only, at a score of -3.
\<close>

theorem red_run_then_green_gives_no_signal:
  "analyze_volume_price_pattern four_red_then_green =
       \<lparr>r_signals = [SigHighVolumeDay1, SigUpperShadowAtResistance],
        r_action = Hold, r_risk_level = Medium,
        r_summary = Summary 2 [RejectedAtResistance] Hold, r_score = Some (- 3)\<rparr>"
  by code_simp

section \<open>Properties of the reversal screen\<close>

subsection \<open>Lists, running sums and the first minimum\<close>

lemma all_adjacent_nth:
  "all_adjacent r xs \<longleftrightarrow> (\<forall>i. Suc i < length xs \<longrightarrow> r (xs ! i) (xs ! Suc i))"
proof (induction r xs rule: all_adjacent.induct)
  case (1 r x y ys)
  show ?case
  proof
    assume a: "all_adjacent r (x # y # ys)"
    show "\<forall>i. Suc i < length (x # y # ys) \<longrightarrow> r ((x # y # ys) ! i) ((x # y # ys) ! Suc i)"
    proof (intro allI impI)
      fix i assume "Suc i < length (x # y # ys)"
      then show "r ((x # y # ys) ! i) ((x # y # ys) ! Suc i)"
        using a 1 by (cases i) auto
    qed
  next
    assume b: "\<forall>i. Suc i < length (x # y # ys) \<longrightarrow> r ((x # y # ys) ! i) ((x # y # ys) ! Suc i)"
    then have "r x y" by (auto dest: spec [of _ 0])
    moreover have "\<forall>i. Suc i < length (y # ys) \<longrightarrow> r ((y # ys) ! i) ((y # ys) ! Suc i)"
    proof (intro allI impI)
      fix i assume "Suc i < length (y # ys)"
      then show "r ((y # ys) ! i) ((y # ys) ! Suc i)"
        using b [rule_format, of "Suc i"] by simp
    qed
    ultimately show "all_adjacent r (x # y # ys)" using 1 by simp
  qed
qed simp_all

lemma length_cumsum_from: "length (cumsum_from a xs) = length xs"
  by (induction xs arbitrary: a) auto

lemma length_cumsum: "length (cumsum xs) = length xs"
  by (simp add: cumsum_def length_cumsum_from)

lemma nth_cumsum_from:
  "k < length xs \<Longrightarrow> cumsum_from a xs ! k = a + sum_list (take (Suc k) xs)"
proof (induction xs arbitrary: a k)
  case Nil
  then show ?case by simp
next
  case (Cons x xs)
  then show ?case by (cases k) (auto simp: add.assoc)
qed

lemma nth_cumsum: "k < length xs \<Longrightarrow> cumsum xs ! k = sum_list (take (Suc k) xs)"
  by (simp add: cumsum_def nth_cumsum_from)

lemma argmin_scan_spec:
  assumes "best_i < i" "pre ! best_i = best" "length pre = i"
    "\<forall>j<i. best \<le> pre ! j" "\<forall>j<best_i. best < pre ! j"
  shows "let m = argmin_scan i best_i best xs; ys = pre @ xs
         in m < length ys \<and> (\<forall>j<length ys. ys ! m \<le> ys ! j) \<and> (\<forall>j<m. ys ! m < ys ! j)"
  using assms
proof (induction xs arbitrary: i best_i best pre)
  case Nil
  then show ?case by (auto simp: Let_def)
next
  case (Cons x xs)
  show ?case
  proof (cases "x < best")
    case True
    have "let m = argmin_scan (Suc i) i x xs; ys = (pre @ [x]) @ xs
         in m < length ys \<and> (\<forall>j<length ys. ys ! m \<le> ys ! j) \<and> (\<forall>j<m. ys ! m < ys ! j)"
    proof (rule Cons.IH)
      show "i < Suc i" by simp
      show "(pre @ [x]) ! i = x" using Cons.prems(3) by (simp add: nth_append)
      show "length (pre @ [x]) = Suc i" using Cons.prems(3) by simp
      show "\<forall>j<Suc i. x \<le> (pre @ [x]) ! j"
        using Cons.prems(3,4) True by (auto simp: nth_append less_Suc_eq)
      show "\<forall>j<i. x < (pre @ [x]) ! j"
        using Cons.prems(3,4) True by (auto simp: nth_append)
    qed
    with True show ?thesis by simp
  next
    case False
    have "let m = argmin_scan (Suc i) best_i best xs; ys = (pre @ [x]) @ xs
         in m < length ys \<and> (\<forall>j<length ys. ys ! m \<le> ys ! j) \<and> (\<forall>j<m. ys ! m < ys ! j)"
    proof (rule Cons.IH)
      show "best_i < Suc i" using Cons.prems(1) by simp
      show "(pre @ [x]) ! best_i = best" using Cons.prems(1,2,3) by (simp add: nth_append)
      show "length (pre @ [x]) = Suc i" using Cons.prems(3) by simp
      show "\<forall>j<Suc i. best \<le> (pre @ [x]) ! j"
        using Cons.prems(3,4) False by (auto simp: nth_append less_Suc_eq)
      show "\<forall>j<best_i. best < (pre @ [x]) ! j"
        using Cons.prems(1,3,5) by (auto simp: nth_append)
    qed
    with False show ?thesis by simp
  qed
qed

lemma argmin_first_min:
  assumes "xs \<noteq> []"
  shows "argmin xs < length xs \<and> (\<forall>j<length xs. xs ! argmin xs \<le> xs ! j)
         \<and> (\<forall>j<argmin xs. xs ! argmin xs < xs ! j)"
proof -
  from assms obtain x ys where xs: "xs = x # ys" by (cases xs) auto
  have "let m = argmin_scan 1 0 x ys; zs = [x] @ ys
        in m < length zs \<and> (\<forall>j<length zs. zs ! m \<le> zs ! j) \<and> (\<forall>j<m. zs ! m < zs ! j)"
    by (rule argmin_scan_spec) auto
  then show ?thesis by (simp add: xs Let_def)
qed

lemma nth_argmin_Min:
  assumes "xs \<noteq> []"
  shows "xs ! argmin xs = Min (set xs)"
proof (rule sym, rule Min_eqI)
  show "finite (set xs)" by simp
  show "\<And>y. y \<in> set xs \<Longrightarrow> xs ! argmin xs \<le> y"
    using argmin_first_min [OF assms] by (auto simp: in_set_conv_nth)
  show "xs ! argmin xs \<in> set xs"
    using argmin_first_min [OF assms] by simp
qed

lemma argmin_unique:
  assumes "xs \<noteq> []" "m < length xs" "xs ! m = Min (set xs)" "\<forall>j<m. xs ! m < xs ! j"
  shows "m = argmin xs"
proof (rule ccontr)
  assume ne: "m \<noteq> argmin xs"
  have am: "xs ! argmin xs = xs ! m" using nth_argmin_Min [OF assms(1)] assms(3) by simp
  have fa: "\<forall>j<argmin xs. xs ! argmin xs < xs ! j" "argmin xs < length xs"
    using argmin_first_min [OF assms(1)] by auto
  from ne consider "m < argmin xs" | "argmin xs < m" by linarith
  then show False
  proof cases
    case 1
    with fa(1) am show False by auto
  next
    case 2
    with assms(4) am show False by auto
  qed
qed


subsection \<open>Evaluating the examples\<close>

lemma replicate_numeral: "replicate (numeral k) x = x # replicate (pred_numeral k) x"
  by (simp add: numeral_eq_Suc)

lemmas reversal_defs =
  reversal_screen_def cond_B_def cond_C_def cond_D_def cond_E_def recent_bottom_def
  enough_rebound_def last_m_rising_def recent_low_occur_def price_rising_def
  has_oscillation_def cum_vals_def cumsum_def closes_def recent_data_def tail_def
  total_net_def last_cum_def iloc_neg_def volume_price_pattern_def
  MIN_DATA_DAYS_def RECENT_BOTTOM_WINDOW_def MIN_REBOUND_AMOUNT_def RISING_CHECK_DAYS_def
  PRICE_RECENT_LOW_WINDOW_def PRICE_RISING_DAYS_def RECENT_OSCILLATION_DAYS_def
  OSCILLATION_MIN_RANGE_def

lemmas example_defs = net_bar_def replicate_numeral

lemmas range_defs = nets_in_range_def whole_lots_def

subsection \<open>Condition B\<close>

lemma length_recent_data: "MIN_DATA_DAYS \<le> length df \<Longrightarrow> length (recent_data df) = 60"
  by (simp add: recent_data_def length_tail MIN_DATA_DAYS_def)

lemma list_all_tail_3:
  assumes "3 \<le> length xs"
  shows "list_all P (tail 3 xs) \<longleftrightarrow> P (iloc_neg xs 1) \<and> P (iloc_neg xs 2) \<and> P (iloc_neg xs 3)"
proof -
  from assms have "drop (length xs - 3) xs
      = [xs ! (length xs - 3), xs ! (length xs - 2), xs ! (length xs - 1)]"
    by (auto simp: list_eq_iff_nth_eq nth_Cons' intro: arg_cong [of _ _ "nth xs"])
  then show ?thesis
    by (auto simp: tail_def iloc_neg_def)
qed

lemma cond_B_last_three:
  assumes "3 \<le> length w"
  shows "cond_B w \<longleftrightarrow> 0 < total_net (iloc_neg w 1) \<and> 0 < total_net (iloc_neg w 2)
           \<and> 0 < total_net (iloc_neg w 3)"
  using assms list_all_tail_3 [of "map total_net w" "\<lambda>x. 0 < x"]
  by (simp add: cond_B_def iloc_neg_def)

lemma cond_B_total_net:
  assumes "MIN_DATA_DAYS \<le> length df"
  shows "(i_cond_B (reversal_screen df)
            \<longleftrightarrow> (\<forall>k\<in>{1, 2, 3}. 0 < total_net (iloc_neg (recent_data df) k)))
       \<and> (i_cond_B (reversal_screen df) \<and> k \<in> {1, 2, 3}
            \<and> total_net b = - total_net (iloc_neg df k)
          \<longrightarrow> \<not> i_cond_B (reversal_screen (df[length df - k := b])))"
proof -
  let ?w = "recent_data df"
  have len: "length ?w = 60" using assms by (rule length_recent_data)
  have B: "i_cond_B (reversal_screen d) = cond_B (recent_data d)" for d
    by (simp add: reversal_screen_def Let_def)
  have first: "cond_B ?w \<longleftrightarrow> (\<forall>k\<in>{1, 2, 3}. 0 < total_net (iloc_neg ?w k))"
    using cond_B_last_three [of ?w] len by simp
  have second: "\<not> cond_B (recent_data (df[length df - k := b]))"
    if c: "cond_B ?w" and k: "k \<in> {1, 2, 3}"
      and flip: "total_net b = - total_net (iloc_neg df k)"
  proof -
    let ?df' = "df[length df - k := b]"
    have len': "length (recent_data ?df') = 60"
      using assms by (simp add: length_recent_data)
    have df60: "60 \<le> length df" using assms by (simp add: MIN_DATA_DAYS_def)
    have same: "iloc_neg ?w k = iloc_neg df k"
      using k df60 by (auto simp: iloc_neg_def recent_data_def tail_def MIN_DATA_DAYS_def)
    have new: "iloc_neg (recent_data ?df') k = b"
      using k df60 by (auto simp: iloc_neg_def recent_data_def tail_def MIN_DATA_DAYS_def)
    have "0 < total_net (iloc_neg df k)"
      using c k first same by auto
    then have "\<not> 0 < total_net (iloc_neg (recent_data ?df') k)"
      using flip new by simp
    then show ?thesis
      using cond_B_last_three [of "recent_data ?df'"] len' k by auto
  qed
  show ?thesis
    using first second by (simp only: B) blast
qed

text \<open>
  C6. On a frame of at least 60 rows whose window holds nets within range, condition B
  holds exactly when \<open>foreign_net + fund_net + dealer_net\<close> is positive on each of the
  last three bars of the window; and when it holds, replacing any one of those three
  bars by a bar (with nets within range) whose sum of the three nets is the negative
  of the old sum makes it false.
\<close>

theorem cond_B_last_three_days:
  assumes "MIN_DATA_DAYS \<le> length df" and "list_all nets_in_range (recent_data df)"
  shows "(i_cond_B (reversal_screen df)
            \<longleftrightarrow> (\<forall>k\<in>{1, 2, 3}.
                   0 < foreign_net (iloc_neg (recent_data df) k)
                       + fund_net (iloc_neg (recent_data df) k)
                       + dealer_net (iloc_neg (recent_data df) k)))
       \<and> (i_cond_B (reversal_screen df) \<and> k \<in> {1, 2, 3} \<and> nets_in_range b
            \<and> foreign_net b + fund_net b + dealer_net b
                = - (foreign_net (iloc_neg df k) + fund_net (iloc_neg df k)
                     + dealer_net (iloc_neg df k))
          \<longrightarrow> \<not> i_cond_B (reversal_screen (df[length df - k := b])))"
  using cond_B_total_net [OF assms(1), of k b, unfolded total_net_def] by blast

theorem cond_B_last_three_days_witness:
  "MIN_DATA_DAYS \<le> length buying_at_the_end
   \<and> list_all nets_in_range (recent_data buying_at_the_end)
   \<and> i_cond_B (reversal_screen buying_at_the_end)
   \<and> nets_in_range (net_bar 50 (- 8) (- 2) (- 1))
   \<and> foreign_net (net_bar 50 (- 8) (- 2) (- 1)) + fund_net (net_bar 50 (- 8) (- 2) (- 1))
       + dealer_net (net_bar 50 (- 8) (- 2) (- 1)) = - 11
   \<and> foreign_net (iloc_neg buying_at_the_end 2) + fund_net (iloc_neg buying_at_the_end 2)
       + dealer_net (iloc_neg buying_at_the_end 2) = 11
   \<and> \<not> i_cond_B (reversal_screen
          (buying_at_the_end[length buying_at_the_end - 2 := net_bar 50 (- 8) (- 2) (- 1)]))"
proof -
  let ?b = "net_bar 50 (- 8) (- 2) (- 1)"
  have a: "MIN_DATA_DAYS \<le> length buying_at_the_end"
    by (simp add: buying_at_the_end_def MIN_DATA_DAYS_def)
  have r: "list_all nets_in_range (recent_data buying_at_the_end)"
    by (simp add: range_defs reversal_defs example_defs buying_at_the_end_def)
  have b: "i_cond_B (reversal_screen buying_at_the_end)"
    by (simp add: reversal_defs example_defs buying_at_the_end_def)
  have n: "nets_in_range ?b"
    by (simp add: range_defs net_bar_def)
  have c: "foreign_net ?b + fund_net ?b + dealer_net ?b = - 11"
    by (simp add: net_bar_def)
  have c': "foreign_net (iloc_neg buying_at_the_end 2) + fund_net (iloc_neg buying_at_the_end 2)
       + dealer_net (iloc_neg buying_at_the_end 2) = 11"
    by (simp add: reversal_defs example_defs buying_at_the_end_def)
  have d: "(2 :: nat) \<in> {1, 2, 3}" by simp
  from cond_B_last_three_days [OF a r, of 2 ?b] b n c c' d
  have "\<not> i_cond_B (reversal_screen (buying_at_the_end[length buying_at_the_end - 2 := ?b]))"
    by simp
  with a r b n c c' show ?thesis by simp
qed

subsection \<open>Condition C\<close>

lemma last_m_rising_60:
  assumes "length (cum_vals w) = 60"
  shows "last_m_rising w
     \<longleftrightarrow> (\<forall>i. 55 \<le> i \<and> i < 59 \<longrightarrow> cum_vals w ! i \<le> cum_vals w ! Suc i)"
proof -
  let ?c = "cum_vals w"
  have "last_m_rising w \<longleftrightarrow> (\<forall>i. Suc i < 5 \<longrightarrow> tail 5 ?c ! i \<le> tail 5 ?c ! Suc i)"
    using assms by (simp add: last_m_rising_def RISING_CHECK_DAYS_def all_adjacent_nth length_tail)
  also have "\<dots> \<longleftrightarrow> (\<forall>i. Suc i < 5 \<longrightarrow> ?c ! (55 + i) \<le> ?c ! (55 + Suc i))"
    using assms by (simp add: nth_tail)
  also have "\<dots> \<longleftrightarrow> (\<forall>i. 55 \<le> i \<and> i < 59 \<longrightarrow> ?c ! i \<le> ?c ! Suc i)"
  proof
    assume h: "\<forall>i. Suc i < 5 \<longrightarrow> ?c ! (55 + i) \<le> ?c ! (55 + Suc i)"
    show "\<forall>i. 55 \<le> i \<and> i < 59 \<longrightarrow> ?c ! i \<le> ?c ! Suc i"
    proof (intro allI impI)
      fix i :: nat
      assume "55 \<le> i \<and> i < 59"
      then show "?c ! i \<le> ?c ! Suc i"
        using h [rule_format, of "i - 55"] by auto
    qed
  next
    assume h: "\<forall>i. 55 \<le> i \<and> i < 59 \<longrightarrow> ?c ! i \<le> ?c ! Suc i"
    show "\<forall>i. Suc i < 5 \<longrightarrow> ?c ! (55 + i) \<le> ?c ! (55 + Suc i)"
    proof (intro allI impI)
      fix i :: nat
      assume "Suc i < 5"
      then show "?c ! (55 + i) \<le> ?c ! (55 + Suc i)"
        using h [rule_format, of "55 + i"] by simp
    qed
  qed
  finally show ?thesis .
qed

lemma recent_bottom_first_min:
  assumes "cum_vals w \<noteq> []"
  shows "recent_bottom w
     \<longleftrightarrow> (\<exists>m<length (cum_vals w). cum_vals w ! m = Min (set (cum_vals w))
             \<and> (\<forall>j<m. cum_vals w ! m < cum_vals w ! j)
             \<and> length (cum_vals w) - 1 - m \<le> 10)"
proof
  assume "recent_bottom w"
  then have "length (cum_vals w) - 1 - argmin (cum_vals w) \<le> 10"
    by (simp add: recent_bottom_def RECENT_BOTTOM_WINDOW_def Let_def)
  then show "\<exists>m<length (cum_vals w). cum_vals w ! m = Min (set (cum_vals w))
             \<and> (\<forall>j<m. cum_vals w ! m < cum_vals w ! j)
             \<and> length (cum_vals w) - 1 - m \<le> 10"
    using argmin_first_min [OF assms] nth_argmin_Min [OF assms] by blast
next
  assume "\<exists>m<length (cum_vals w). cum_vals w ! m = Min (set (cum_vals w))
             \<and> (\<forall>j<m. cum_vals w ! m < cum_vals w ! j)
             \<and> length (cum_vals w) - 1 - m \<le> 10"
  then obtain m where m: "m < length (cum_vals w)" "cum_vals w ! m = Min (set (cum_vals w))"
    "\<forall>j<m. cum_vals w ! m < cum_vals w ! j" "length (cum_vals w) - 1 - m \<le> 10"
    by blast
  have "m = argmin (cum_vals w)"
    using argmin_unique [OF assms m(1,2,3)] .
  with m(4) show "recent_bottom w"
    by (simp add: recent_bottom_def RECENT_BOTTOM_WINDOW_def Let_def)
qed

lemma cond_C_exact:
  assumes "MIN_DATA_DAYS \<le> length df"
  shows "let cum = cum_vals (recent_data df) in
     length cum = 60
     \<and> (\<forall>k<60. cum ! k = sum_list (map total_net (take (Suc k) (recent_data df))))
     \<and> (i_cond_C (reversal_screen df) \<longleftrightarrow>
          (\<exists>m<length cum. cum ! m = Min (set cum) \<and> (\<forall>j<m. cum ! m < cum ! j)
              \<and> length cum - 1 - m \<le> 10)
          \<and> 500 < cum ! 59 - Min (set cum)
          \<and> (\<forall>i. 55 \<le> i \<and> i < 59 \<longrightarrow> cum ! i \<le> cum ! Suc i))"
proof -
  let ?w = "recent_data df"
  let ?c = "cum_vals ?w"
  have lw: "length ?w = 60" using assms by (rule length_recent_data)
  then have len: "length ?c = 60" by (simp add: cum_vals_def length_cumsum)
  then have ne: "?c \<noteq> []" by auto
  have sums: "\<forall>k<60. ?c ! k = sum_list (map total_net (take (Suc k) ?w))"
    using lw by (simp add: cum_vals_def nth_cumsum take_map)
  have reb: "enough_rebound ?w \<longleftrightarrow> 500 < ?c ! 59 - Min (set ?c)"
    using len by (simp add: enough_rebound_def last_cum_def iloc_neg_def MIN_REBOUND_AMOUNT_def)
  have "i_cond_C (reversal_screen df) = cond_C ?w"
    by (simp add: reversal_screen_def Let_def)
  then have "i_cond_C (reversal_screen df) \<longleftrightarrow>
          (\<exists>m<length ?c. ?c ! m = Min (set ?c) \<and> (\<forall>j<m. ?c ! m < ?c ! j)
              \<and> length ?c - 1 - m \<le> 10)
          \<and> 500 < ?c ! 59 - Min (set ?c)
          \<and> (\<forall>i. 55 \<le> i \<and> i < 59 \<longrightarrow> ?c ! i \<le> ?c ! Suc i)"
    using recent_bottom_first_min [OF ne] reb last_m_rising_60 [OF len]
    by (simp add: cond_C_def)
  with len sums show ?thesis by (simp add: Let_def)
qed

text \<open>
  C7. On a frame of at least 60 rows whose window holds nets within range, the
  window's running sum has 60 values, the \<open>k\<close>-th being the sum of
  \<open>foreign_net + fund_net + dealer_net\<close> over the first \<open>k + 1\<close> bars, and condition C
  holds exactly when (i) the first position \<open>m\<close> of its minimum has \<open>len - 1 - m \<le> 10\<close>,
  (ii) the last value exceeds the minimum by more than 500, and (iii) over the last
  five values no value is below the one before it.
\<close>

theorem cond_C_three_parts:
  assumes "MIN_DATA_DAYS \<le> length df" and "list_all nets_in_range (recent_data df)"
  shows "let cum = cum_vals (recent_data df) in
     length cum = 60
     \<and> (\<forall>k<60. cum ! k
           = (\<Sum>b\<leftarrow>take (Suc k) (recent_data df). foreign_net b + fund_net b + dealer_net b))
     \<and> (i_cond_C (reversal_screen df) \<longleftrightarrow>
          (\<exists>m<length cum. cum ! m = Min (set cum) \<and> (\<forall>j<m. cum ! m < cum ! j)
              \<and> length cum - 1 - m \<le> 10)
          \<and> 500 < cum ! 59 - Min (set cum)
          \<and> (\<forall>i. 55 \<le> i \<and> i < 59 \<longrightarrow> cum ! i \<le> cum ! Suc i))"
  using cond_C_exact [OF assms(1)] by (simp only: total_net_def [abs_def])

theorem cond_C_three_parts_witness:
  "MIN_DATA_DAYS \<le> length sold_then_bought
   \<and> list_all nets_in_range (recent_data sold_then_bought)
   \<and> i_cond_C (reversal_screen sold_then_bought)
   \<and> argmin (cum_vals (recent_data sold_then_bought)) = 54
   \<and> cum_vals (recent_data sold_then_bought) ! 54 = - 5500
   \<and> cum_vals (recent_data sold_then_bought) ! 59 = - 4500
   \<and> 500 < cum_vals (recent_data sold_then_bought) ! 59
             - Min (set (cum_vals (recent_data sold_then_bought)))"
proof -
  have a: "MIN_DATA_DAYS \<le> length sold_then_bought"
    by (simp add: sold_then_bought_def MIN_DATA_DAYS_def)
  have r: "list_all nets_in_range (recent_data sold_then_bought)"
    by (simp add: range_defs reversal_defs example_defs sold_then_bought_def)
  have b: "i_cond_C (reversal_screen sold_then_bought)"
    by (simp add: reversal_defs example_defs sold_then_bought_def)
  have c: "argmin (cum_vals (recent_data sold_then_bought)) = 54"
    by (simp add: reversal_defs example_defs sold_then_bought_def)
  have d: "cum_vals (recent_data sold_then_bought) ! 54 = - 5500"
    by (simp add: reversal_defs example_defs sold_then_bought_def)
  have e: "cum_vals (recent_data sold_then_bought) ! 59 = - 4500"
    by (simp add: reversal_defs example_defs sold_then_bought_def)
  from cond_C_three_parts [OF a r] b have "500 < cum_vals (recent_data sold_then_bought) ! 59
             - Min (set (cum_vals (recent_data sold_then_bought)))"
    unfolding Let_def by blast
  with a r b c d e show ?thesis by simp
qed

subsection \<open>Condition D\<close>

text \<open>
  C8. On a frame of at least 60 rows, condition D holds exactly when the lowest close
  of the window is the value of one of its last ten closes, wherever else that value
  also stands, and the last close is above the one before it.
\<close>

theorem cond_D_recent_low_and_rising:
  assumes "MIN_DATA_DAYS \<le> length df"
  shows "let cl = closes (recent_data df) in
     length cl = 60
     \<and> (i_cond_D (reversal_screen df) \<longleftrightarrow>
          (\<exists>i. 50 \<le> i \<and> i < 60 \<and> cl ! i = Min (set cl)) \<and> cl ! 58 < cl ! 59)"
proof -
  let ?w = "recent_data df"
  let ?cl = "closes ?w"
  have len: "length ?cl = 60"
    using length_recent_data [OF assms] by (simp add: closes_def)
  have "recent_low_occur ?w \<longleftrightarrow> (\<exists>i<10. tail 10 ?cl ! i = Min (set ?cl))"
    using len
    by (auto simp: recent_low_occur_def PRICE_RECENT_LOW_WINDOW_def Let_def in_set_conv_nth
        length_tail)
  also have "\<dots> \<longleftrightarrow> (\<exists>i<10. ?cl ! (50 + i) = Min (set ?cl))"
  proof -
    have "tail 10 ?cl ! i = ?cl ! (50 + i)" if "i < 10" for i
      using len that by (simp add: nth_tail)
    then show ?thesis by auto
  qed
  also have "\<dots> \<longleftrightarrow> (\<exists>i. 50 \<le> i \<and> i < 60 \<and> ?cl ! i = Min (set ?cl))"
  proof
    assume "\<exists>i<10. ?cl ! (50 + i) = Min (set ?cl)"
    then obtain i where "i < 10" "?cl ! (50 + i) = Min (set ?cl)" by blast
    then have "50 \<le> 50 + i \<and> 50 + i < 60 \<and> ?cl ! (50 + i) = Min (set ?cl)" by simp
    then show "\<exists>i. 50 \<le> i \<and> i < 60 \<and> ?cl ! i = Min (set ?cl)" by blast
  next
    assume "\<exists>i. 50 \<le> i \<and> i < 60 \<and> ?cl ! i = Min (set ?cl)"
    then obtain i where i: "50 \<le> i" "i < 60" "?cl ! i = Min (set ?cl)" by blast
    then have "i - 50 < 10 \<and> ?cl ! (50 + (i - 50)) = Min (set ?cl)" by simp
    then show "\<exists>i<10. ?cl ! (50 + i) = Min (set ?cl)" by blast
  qed
  finally have low: "recent_low_occur ?w
      \<longleftrightarrow> (\<exists>i. 50 \<le> i \<and> i < 60 \<and> ?cl ! i = Min (set ?cl))" .
  have "tail 2 ?cl = [?cl ! 58, ?cl ! 59]"
    using len
    by (auto simp: tail_def list_eq_iff_nth_eq nth_Cons' intro: arg_cong [of _ _ "nth ?cl"])
  then have rise: "price_rising ?w \<longleftrightarrow> ?cl ! 58 < ?cl ! 59"
    by (simp add: price_rising_def PRICE_RISING_DAYS_def Let_def)
  have "i_cond_D (reversal_screen df) = cond_D ?w"
    by (simp add: reversal_screen_def Let_def)
  with low rise len show ?thesis
    by (simp add: cond_D_def Let_def)
qed

theorem cond_D_recent_low_and_rising_witness:
  "MIN_DATA_DAYS \<le> length low_twice_then_up
   \<and> argmin (closes (recent_data low_twice_then_up)) = 1
   \<and> closes (recent_data low_twice_then_up) ! 55 = Min (set (closes (recent_data low_twice_then_up)))
   \<and> closes (recent_data low_twice_then_up) ! 58 < closes (recent_data low_twice_then_up) ! 59
   \<and> i_cond_D (reversal_screen low_twice_then_up)"
proof -
  let ?cl = "closes (recent_data low_twice_then_up)"
  have a: "MIN_DATA_DAYS \<le> length low_twice_then_up"
    by (simp add: low_twice_then_up_def MIN_DATA_DAYS_def)
  have b: "argmin ?cl = 1"
    by (simp add: reversal_defs example_defs low_twice_then_up_def)
  have c: "?cl ! 55 = Min (set ?cl)"
    by (simp add: reversal_defs example_defs low_twice_then_up_def)
  have d: "?cl ! 58 < ?cl ! 59"
    by (simp add: reversal_defs example_defs low_twice_then_up_def)
  from c have "\<exists>i. 50 \<le> i \<and> i < 60 \<and> ?cl ! i = Min (set ?cl)"
    by (intro exI [of _ 55]) simp
  with cond_D_recent_low_and_rising [OF a] d have "i_cond_D (reversal_screen low_twice_then_up)"
    unfolding Let_def by blast
  with a b c d show ?thesis by simp
qed

section \<open>Properties of the normalizer\<close>

subsection \<open>The repair of glued prices\<close>

lemma not_digit_dot: "\<not> is_digit CHR ''.''"
  by (simp add: is_digit_def)

lemma price3_split:
  assumes "is_price3 p"
  obtains whole decimals where "p = whole @ CHR ''.'' # decimals" "whole \<noteq> []"
    "\<forall>c\<in>set whole. is_digit c" "length decimals = 3" "\<forall>c\<in>set decimals. is_digit c"
proof -
  let ?w = "takeWhile is_digit p"
  from assms have w: "?w \<noteq> []"
    by (simp add: is_price3_def Let_def)
  from assms obtain c decimals where d: "dropWhile is_digit p = c # decimals"
    by (cases "dropWhile is_digit p") (simp_all add: is_price3_def Let_def)
  with assms have c: "c = CHR ''.''" and f: "length decimals = 3" "list_all is_digit decimals"
    by (simp_all add: is_price3_def Let_def)
  have "?w @ dropWhile is_digit p = p"
    by (rule takeWhile_dropWhile_id)
  then have "p = ?w @ CHR ''.'' # decimals"
    unfolding d c by (rule sym)
  moreover have "\<forall>c\<in>set ?w. is_digit c"
    by (auto dest: set_takeWhileD)
  moreover have "\<forall>c\<in>set decimals. is_digit c"
    using f(2) by (simp add: list_all_iff)
  ultimately show thesis
    using that w f(1) by blast
qed

lemma match_price_price3:
  assumes "is_price3 p"
  shows "match_price (p @ rest) = Some (p, rest)"
proof -
  from assms obtain whole decimals where p: "p = whole @ CHR ''.'' # decimals" and w: "whole \<noteq> []"
    and wd: "\<forall>c\<in>set whole. is_digit c" and fl: "length decimals = 3"
    and fd: "\<forall>c\<in>set decimals. is_digit c"
    by (rule price3_split)
  have tw: "takeWhile is_digit (p @ rest) = whole"
    using wd by (simp add: p takeWhile_append2 not_digit_dot)
  have dw: "dropWhile is_digit (p @ rest) = CHR ''.'' # decimals @ rest"
    using wd by (simp add: p dropWhile_append2 not_digit_dot)
  have tk: "takeWhile is_digit (decimals @ rest) = decimals @ takeWhile is_digit rest"
    using fd by (simp add: takeWhile_append2)
  have ne: "decimals \<noteq> []"
    using fl by auto
  show ?thesis
    unfolding match_price_def tw dw using w fl ne by (simp add: tk p)
qed

lemma findall_price_Nil: "findall_price [] = []"
  by (subst findall_price.simps) simp

lemma findall_price_price3:
  assumes "is_price3 p"
  shows "findall_price (p @ rest) = p # findall_price rest"
proof -
  have "p \<noteq> []" using assms by (auto simp: is_price3_def)
  then show ?thesis
    using match_price_price3 [OF assms, of rest]
    by (subst findall_price.simps) simp
qed

lemma findall_price_four:
  assumes "is_price3 p1" "is_price3 p2" "is_price3 p3" "is_price3 p4"
  shows "findall_price (p1 @ p2 @ p3 @ p4) = [p1, p2, p3, p4]"
  using findall_price_price3 [OF assms(1), of "p2 @ p3 @ p4"]
    findall_price_price3 [OF assms(2), of "p3 @ p4"]
    findall_price_price3 [OF assms(3), of "p4"]
    findall_price_price3 [OF assms(4), of "[]"]
  by (simp add: findall_price_Nil)

lemma digit_not_space: "is_digit c \<Longrightarrow> \<not> is_space c"
  by (auto simp: is_digit_def is_space_def Let_def)

lemma price3_shape:
  assumes "is_price3 p"
  shows "5 \<le> length p" "is_digit (hd p)" "is_digit (last p)" "p \<noteq> []" "CHR ''.'' \<in> set p"
proof -
  from assms obtain whole decimals where p: "p = whole @ CHR ''.'' # decimals" and w: "whole \<noteq> []"
    and wd: "\<forall>c\<in>set whole. is_digit c" and fl: "length decimals = 3"
    and fd: "\<forall>c\<in>set decimals. is_digit c"
    by (rule price3_split)
  from w have "1 \<le> length whole" by (cases whole) auto
  then show "5 \<le> length p" using fl by (simp add: p)
  show "is_digit (hd p)" using w wd by (simp add: p hd_append)
  from fl have "decimals \<noteq> []" by auto
  then show "is_digit (last p)" using fd by (simp add: p)
  show "p \<noteq> []" by (simp add: p)
  show "CHR ''.'' \<in> set p" by (simp add: p)
qed

lemma strip_id:
  assumes "s \<noteq> []" "\<not> is_space (hd s)" "\<not> is_space (last s)"
  shows "strip s = s"
proof -
  have a: "dropWhile is_space s = s"
    using assms(1,2) by (cases s) auto
  have "rev s \<noteq> []" "\<not> is_space (hd (rev s))"
    using assms(1,3) by (auto simp: hd_rev)
  then have "dropWhile is_space (rev s) = rev s"
    by (cases "rev s") auto
  with a show ?thesis by (simp add: strip_def)
qed

lemma strip_four_prices:
  assumes "is_price3 p1" "is_price3 p4"
  shows "strip (p1 @ p2 @ p3 @ p4) = p1 @ p2 @ p3 @ p4"
proof (rule strip_id)
  show "p1 @ p2 @ p3 @ p4 \<noteq> []" using price3_shape(4) [OF assms(1)] by simp
  show "\<not> is_space (hd (p1 @ p2 @ p3 @ p4))"
    using price3_shape(2,4) [OF assms(1)] by (simp add: digit_not_space)
  show "\<not> is_space (last (p1 @ p2 @ p3 @ p4))"
    using price3_shape(3,4) [OF assms(2)] by (simp add: digit_not_space)
qed

lemma coerce_row_no_open: "open_cell row = None \<Longrightarrow> coerce_row num row = None"
  by (simp add: coerce_row_def to_numeric_def)

lemma dropna_no_open: "open_cell row = None \<Longrightarrow> dropna num [row] = []"
  by (simp add: dropna_def coerce_row_no_open List.map_filter_simps)

lemma findall_price_two_decimals:
  "findall_price ''12.5012.6012.4012.55'' = [''12.501'', ''2.601'', ''2.401'', ''2.55'']"
  by code_simp

lemma findall_price_mixed_decimals:
  "findall_price ''10.510.610.410.55'' = [''10.510'', ''610.410'']"
  by code_simp

lemma strip_glued_examples:
  "strip ''12.5012.6012.4012.55'' = ''12.5012.6012.4012.55''"
  "strip ''10.510.610.410.55'' = ''10.510.610.410.55''"
  by (simp_all add: strip_def is_space_def)

text \<open>
  C10, as stated, fails: the regular expression takes up to three decimals wherever it
  finds them, so glued prices written with fewer are cut in the wrong places. Of four
  prices with two decimals it makes 12.501, 2.601, 2.401 and 2.55; of 10.5, 10.6, 10.4
  and 10.55 it finds two matches only, and the row is emptied and dropped.
\<close>

theorem glued_prices_not_recovered_counterexample:
  "open_cell two_decimals_row = Some (''12.50'' @ ''12.60'' @ ''12.40'' @ ''12.55'')
   \<and> 12 < length (''12.50'' @ ''12.60'' @ ''12.40'' @ ''12.55'')
   \<and> fix_price_columns two_decimals_row
       = two_decimals_row\<lparr>open_cell := Some ''12.501'', high_cell := Some ''2.601'',
                           low_cell := Some ''2.401'', close_cell := Some ''2.55''\<rparr>
   \<and> open_cell mixed_decimals_row = Some (''10.5'' @ ''10.6'' @ ''10.4'' @ ''10.55'')
   \<and> 12 < length (''10.5'' @ ''10.6'' @ ''10.4'' @ ''10.55'')
   \<and> findall_price (''10.5'' @ ''10.6'' @ ''10.4'' @ ''10.55'') = [''10.510'', ''610.410'']
   \<and> open_cell (fix_price_columns mixed_decimals_row) = None
   \<and> dropna plain_number (map fix_price_columns [mixed_decimals_row]) = []"
proof -
  have 1: "fix_price_columns two_decimals_row
       = two_decimals_row\<lparr>open_cell := Some ''12.501'', high_cell := Some ''2.601'',
                           low_cell := Some ''2.401'', close_cell := Some ''2.55''\<rparr>"
    by (simp add: fix_price_columns_def two_decimals_row_def glued_row_of_def
        strip_glued_examples findall_price_two_decimals)
  have 2: "open_cell (fix_price_columns mixed_decimals_row) = None"
    by (simp add: fix_price_columns_def mixed_decimals_row_def glued_row_of_def
        strip_glued_examples findall_price_mixed_decimals)
  then have 3: "dropna plain_number (map fix_price_columns [mixed_decimals_row]) = []"
    by (simp add: dropna_no_open)
  have 4: "open_cell two_decimals_row = Some (''12.50'' @ ''12.60'' @ ''12.40'' @ ''12.55'')"
    "open_cell mixed_decimals_row = Some (''10.5'' @ ''10.6'' @ ''10.4'' @ ''10.55'')"
    by (simp_all add: two_decimals_row_def mixed_decimals_row_def glued_row_of_def)
  from 1 2 3 4 findall_price_mixed_decimals show ?thesis by simp
qed

text \<open>
  C10, amended. Three statements about a row's \<open>open\<close> field. When it is four prices
  of exactly three decimals each, written one after the other, the repair puts exactly
  those four into open, high, low and close. For every field that is longer than 12
  characters after stripping and holds a dot, the repair puts the first four matches
  of the regular expression there when it finds at least four, and otherwise empties
  \<open>open\<close>, after which \<open>dropna\<close> drops the row. And the field
  \<open>12.50012.60012.40012.550\<close> gives 12.500, 12.600, 12.400 and 12.550.
\<close>

theorem fix_price_columns_splits:
  "(is_price3 p1 \<and> is_price3 p2 \<and> is_price3 p3 \<and> is_price3 p4
      \<and> open_cell row = Some (p1 @ p2 @ p3 @ p4)
    \<longrightarrow> fix_price_columns row
          = row\<lparr>open_cell := Some p1, high_cell := Some p2, low_cell := Some p3,
                close_cell := Some p4\<rparr>)
   \<and> (open_cell row = Some v \<and> 12 < length (strip v) \<and> CHR ''.'' \<in> set (strip v)
      \<longrightarrow> (4 \<le> length (findall_price (strip v))
            \<longrightarrow> fix_price_columns row
                  = row\<lparr>open_cell := Some (findall_price (strip v) ! 0),
                        high_cell := Some (findall_price (strip v) ! 1),
                        low_cell := Some (findall_price (strip v) ! 2),
                        close_cell := Some (findall_price (strip v) ! 3)\<rparr>)
          \<and> (length (findall_price (strip v)) < 4
            \<longrightarrow> open_cell (fix_price_columns row) = None
                \<and> dropna num (map fix_price_columns [row]) = []))
   \<and> (open_cell row = Some ''12.50012.60012.40012.550''
      \<longrightarrow> open_cell (fix_price_columns row) = Some ''12.500''
          \<and> high_cell (fix_price_columns row) = Some ''12.600''
          \<and> low_cell (fix_price_columns row) = Some ''12.400''
          \<and> close_cell (fix_price_columns row) = Some ''12.550'')"
proof (intro conjI impI)
  assume a: "is_price3 p1 \<and> is_price3 p2 \<and> is_price3 p3 \<and> is_price3 p4
      \<and> open_cell row = Some (p1 @ p2 @ p3 @ p4)"
  let ?v = "p1 @ p2 @ p3 @ p4"
  have s: "strip ?v = ?v" using a strip_four_prices by blast
  have f: "findall_price ?v = [p1, p2, p3, p4]" using a findall_price_four by blast
  have "5 \<le> length p1" "5 \<le> length p2" "5 \<le> length p3" "5 \<le> length p4"
    using a price3_shape(1) by blast+
  then have l: "12 < length ?v" by simp
  have d: "CHR ''.'' \<in> set ?v" using a price3_shape(5) [of p1] by simp
  show "fix_price_columns row
          = row\<lparr>open_cell := Some p1, high_cell := Some p2, low_cell := Some p3,
                close_cell := Some p4\<rparr>"
    using a l d by (simp add: fix_price_columns_def s f Let_def del: set_append)
next
  assume "open_cell row = Some v \<and> 12 < length (strip v) \<and> CHR ''.'' \<in> set (strip v)"
    and "4 \<le> length (findall_price (strip v))"
  then show "fix_price_columns row
                  = row\<lparr>open_cell := Some (findall_price (strip v) ! 0),
                        high_cell := Some (findall_price (strip v) ! 1),
                        low_cell := Some (findall_price (strip v) ! 2),
                        close_cell := Some (findall_price (strip v) ! 3)\<rparr>"
    by (simp add: fix_price_columns_def Let_def)
next
  assume a: "open_cell row = Some v \<and> 12 < length (strip v) \<and> CHR ''.'' \<in> set (strip v)"
    and b: "length (findall_price (strip v)) < 4"
  then show n: "open_cell (fix_price_columns row) = None"
    by (simp add: fix_price_columns_def Let_def)
  then show "dropna num (map fix_price_columns [row]) = []"
    by (simp add: dropna_no_open)
next
  assume a: "open_cell row = Some ''12.50012.60012.40012.550''"
  have p: "is_price3 ''12.500''" "is_price3 ''12.600''" "is_price3 ''12.400''"
    "is_price3 ''12.550''"
    by (simp_all add: is_price3_def is_digit_def)
  have e: "''12.50012.60012.40012.550'' = ''12.500'' @ ''12.600'' @ ''12.400'' @ ''12.550''"
    by simp
  have s: "strip ''12.50012.60012.40012.550'' = ''12.50012.60012.40012.550''"
    unfolding e using p strip_four_prices by blast
  have f: "findall_price ''12.50012.60012.40012.550''
             = [''12.500'', ''12.600'', ''12.400'', ''12.550'']"
    unfolding e using p findall_price_four by blast
  show "open_cell (fix_price_columns row) = Some ''12.500''"
    "high_cell (fix_price_columns row) = Some ''12.600''"
    "low_cell (fix_price_columns row) = Some ''12.400''"
    "close_cell (fix_price_columns row) = Some ''12.550''"
    using a by (simp_all add: fix_price_columns_def s f Let_def)
qed

lemma findall_price_broken: "findall_price ''12.50012.600xx'' = [''12.500'', ''12.600'']"
  by code_simp

theorem fix_price_columns_splits_witness:
  "open_cell glued_row = Some ''12.50012.60012.40012.550''
   \<and> fix_price_columns glued_row
       = glued_row\<lparr>open_cell := Some ''12.500'', high_cell := Some ''12.600'',
                    low_cell := Some ''12.400'', close_cell := Some ''12.550''\<rparr>
   \<and> open_cell broken_row = Some ''12.50012.600xx''
   \<and> length (findall_price (strip ''12.50012.600xx'')) = 2
   \<and> open_cell (fix_price_columns broken_row) = None
   \<and> dropna plain_number (map fix_price_columns [broken_row]) = []"
proof -
  have g: "open_cell glued_row = Some (''12.500'' @ ''12.600'' @ ''12.400'' @ ''12.550'')"
    by (simp add: glued_row_def)
  have p: "is_price3 ''12.500''" "is_price3 ''12.600''" "is_price3 ''12.400''"
    "is_price3 ''12.550''"
    by (simp_all add: is_price3_def is_digit_def)
  have b: "open_cell broken_row = Some ''12.50012.600xx''"
    by (simp add: broken_row_def)
  have s: "strip ''12.50012.600xx'' = ''12.50012.600xx''"
    by (simp add: strip_def is_space_def)
  have l: "12 < length (strip ''12.50012.600xx'')" "CHR ''.'' \<in> set (strip ''12.50012.600xx'')"
    by (simp_all add: s)
  have n: "length (findall_price (strip ''12.50012.600xx'')) = 2"
    by (simp add: s findall_price_broken)
  from fix_price_columns_splits [of "''12.500''" "''12.600''" "''12.400''" "''12.550''" glued_row] g p
  have 1: "fix_price_columns glued_row
       = glued_row\<lparr>open_cell := Some ''12.500'', high_cell := Some ''12.600'',
                    low_cell := Some ''12.400'', close_cell := Some ''12.550''\<rparr>"
    by blast
  from fix_price_columns_splits [of _ _ _ _ broken_row "''12.50012.600xx''" plain_number] b l n
  have 2: "open_cell (fix_price_columns broken_row) = None
           \<and> dropna plain_number (map fix_price_columns [broken_row]) = []"
    by simp
  from 1 2 g b n show ?thesis by simp
qed

subsection \<open>Sorting keeps every row\<close>

lemma parse_dates_Some:
  "parse_dates dt rows = Some ys \<Longrightarrow> ys = map (\<lambda>(s, b). (the (dt s), b)) rows"
proof (induction rows arbitrary: ys)
  case Nil
  then show ?case by (simp add: parse_dates_def)
next
  case (Cons r rows)
  obtain s b where r: "r = (s, b)" by (cases r)
  from Cons.prems obtain t zs where t: "dt s = Some t"
    and zs: "parse_dates dt rows = Some zs" and ys: "ys = (t, b) # zs"
    by (auto simp: parse_dates_def r split: option.splits)
  from Cons.IH [OF zs] show ?case
    by (simp add: r t ys)
qed

lemmas normalize_defs =
  normalize_def parse_dates_def match_dates_def dropna_def coerce_row_def to_numeric_def
  fix_price_columns_def strip_def is_space_def date_matches_def date_shape_def is_digit_def
  Let_def

lemmas parser_defs = plain_number_def iso_date_def decimal_value_def digit_value_def

lemma normalize_duplicated_day:
  "normalize plain_number iso_date duplicated_day = Some duplicated_day_frame"
  by (simp add: normalize_defs parser_defs duplicated_day_def sixty_dates_def day_row_def
      duplicated_day_frame_def flat_bar_def ohlcv_def)

lemma duplicated_day_frame_facts:
  "length duplicated_day_frame = 61"
  "map fst (tail 2 duplicated_day_frame) = [20240320, 20240320]"
  "map (close_price \<circ> snd) (tail 2 duplicated_day_frame) = [50, 51]"
  by (simp_all add: duplicated_day_frame_def tail_def flat_bar_def ohlcv_def)

text \<open>
  C4, as stated, fails: the source sorts and re-indexes but never drops a row for its
  date. Of the 61 rows below two are dated 2024-03-20; both are in the normalized
  frame, next to each other at its end, and that frame is what the screen is run on.
\<close>

theorem duplicate_dates_survive_counterexample:
  "normalize plain_number iso_date duplicated_day = Some duplicated_day_frame
   \<and> length duplicated_day_frame = 61
   \<and> map fst (tail 2 duplicated_day_frame) = [20240320, 20240320]
   \<and> map (close_price \<circ> snd) (tail 2 duplicated_day_frame) = [50, 51]
   \<and> \<not> distinct (map fst duplicated_day_frame)
   \<and> analyze_stock_file plain_number iso_date duplicated_day
       = Some (reversal_screen (map snd duplicated_day_frame))"
proof -
  have "tail 2 duplicated_day_frame = drop 59 duplicated_day_frame"
    by (simp add: tail_def duplicated_day_frame_facts(1))
  then have "map fst (drop 59 duplicated_day_frame) = [20240320, 20240320]"
    using duplicated_day_frame_facts(2) by simp
  then have "\<not> distinct (map fst (drop 59 duplicated_day_frame))"
    by simp
  then have "\<not> distinct (drop 59 (map fst duplicated_day_frame))"
    by (simp add: drop_map)
  then have d: "\<not> distinct (map fst duplicated_day_frame)"
    using distinct_drop by blast
  have "duplicated_day \<noteq> []"
    by (simp add: duplicated_day_def)
  then have "analyze_stock_file plain_number iso_date duplicated_day
       = Some (reversal_screen (map snd duplicated_day_frame))"
    by (simp add: analyze_stock_file_def normalize_duplicated_day duplicated_day_frame_facts(1)
        MIN_DATA_DAYS_def)
  with d normalize_duplicated_day duplicated_day_frame_facts show ?thesis
    by simp
qed

text \<open>
  C4, amended. Whatever the two parsers are, a frame that \<open>normalize\<close> returns is
  sorted by date and holds every row that passed the numeric and the date filter, each
  once for each time it passed: rows that share a date are all kept.
\<close>

theorem normalize_sorts_and_keeps_rows:
  assumes "normalize num dt raw = Some df"
  shows "sorted (map fst df)
       \<and> mset df = mset (map (\<lambda>(s, b). (the (dt s), b))
                           (match_dates (dropna num (map fix_price_columns raw))))
       \<and> length df = length (match_dates (dropna num (map fix_price_columns raw)))"
proof -
  let ?kept = "match_dates (dropna num (map fix_price_columns raw))"
  from assms obtain ys where ys: "parse_dates dt ?kept = Some ys" and df: "df = sort_key fst ys"
    by (auto simp: normalize_def)
  have m: "ys = map (\<lambda>(s, b). (the (dt s), b)) ?kept"
    using ys by (rule parse_dates_Some)
  have "sorted (map fst df)" by (simp add: df)
  moreover have "mset df = mset ys" by (simp add: df)
  moreover have "length df = length ys" by (simp add: df)
  ultimately show ?thesis using m by simp
qed


theorem normalize_sorts_and_keeps_rows_witness:
  "normalize plain_number iso_date duplicated_day = Some duplicated_day_frame
   \<and> sorted (map fst duplicated_day_frame)
   \<and> length (match_dates (dropna plain_number (map fix_price_columns duplicated_day))) = 61"
  using normalize_sorts_and_keeps_rows [OF normalize_duplicated_day] normalize_duplicated_day
    duplicated_day_frame_facts(1)
  by simp

section \<open>Properties of the threshold screen\<close>

lemma screen_stocks_cases:
  assumes "ma_long cfg \<le> length rows" "2 \<le> length rows"
  shows "screen_stocks cfg rows
         = (if enabled_conditions_hold cfg (sorted_frame rows)
            then Some (pass_record_of cfg (sorted_frame rows)) else None)"
  using assms
  by (simp add: screen_stocks_def enabled_conditions_hold_def sorted_frame_def Let_def)

text \<open>
  C9, as stated, fails for a window of one: a frame of a single row has as many rows
  as \<open>ma_long = 1\<close> asks for and every condition is switched off, yet reading the
  previous row raises and the result is \<open>None\<close>.
\<close>

theorem single_row_never_passes_counterexample:
  "ma_long (no_conditions\<lparr>ma_long := 1\<rparr>) \<le> length [(1 :: nat, flat_bar 50 1000)]
   \<and> screen_stocks (no_conditions\<lparr>ma_long := 1\<rparr>) [(1 :: nat, flat_bar 50 1000)] = None"
  by (simp add: screen_stocks_def no_conditions_def default_config_def)

text \<open>
  C9, amended. On a frame of at least \<open>ma_long\<close> rows and at least two rows, the screen
  returns the pass record exactly when every enabled condition holds, and \<open>None\<close>
  otherwise. With every flag off it passes. With the price ceiling on at 100, a latest
  close of 100 meets the price condition (and passes when the other flags are off), and
  a latest close of 100.01 fails.
\<close>

theorem screen_passes_iff_enabled_conditions:
  assumes "ma_long cfg \<le> length rows" and "2 \<le> length rows"
  shows "(screen_stocks cfg rows
            = (if enabled_conditions_hold cfg (sorted_frame rows)
               then Some (pass_record_of cfg (sorted_frame rows)) else None))
       \<and> (\<not> use_price cfg \<and> \<not> use_ma cfg \<and> \<not> use_vol cfg \<and> \<not> use_min_vol cfg
            \<and> \<not> use_inst cfg \<and> \<not> use_shape cfg
          \<longrightarrow> screen_stocks cfg rows \<noteq> None)
       \<and> (use_price cfg \<and> max_price cfg = 100
            \<and> close_price (iloc_neg (sorted_frame rows) 1) = 100
          \<longrightarrow> c_price cfg (sorted_frame rows)
              \<and> (\<not> use_ma cfg \<and> \<not> use_vol cfg \<and> \<not> use_min_vol cfg \<and> \<not> use_inst cfg
                   \<and> \<not> use_shape cfg
                 \<longrightarrow> screen_stocks cfg rows \<noteq> None))
       \<and> (use_price cfg \<and> max_price cfg = 100
            \<and> close_price (iloc_neg (sorted_frame rows) 1) = 10001 / 100
          \<longrightarrow> screen_stocks cfg rows = None)"
  using screen_stocks_cases [OF assms]
  by (simp add: enabled_conditions_hold_def c_price_def)

theorem screen_passes_iff_enabled_conditions_witness:
  "ma_long price_only \<le> length (twenty_days 100) \<and> 2 \<le> length (twenty_days 100)
   \<and> close_price (iloc_neg (sorted_frame (twenty_days 100)) 1) = 100
   \<and> screen_stocks price_only (twenty_days 100) \<noteq> None
   \<and> close_price (iloc_neg (sorted_frame (twenty_days (10001 / 100))) 1) = 10001 / 100
   \<and> screen_stocks price_only (twenty_days (10001 / 100)) = None
   \<and> screen_stocks no_conditions (twenty_days (10001 / 100)) \<noteq> None"
proof -
  have l: "length (twenty_days c) = 20" for c
    by (simp add: twenty_days_def)
  have a: "ma_long price_only \<le> length (twenty_days c)"
    "ma_long no_conditions \<le> length (twenty_days c)" "2 \<le> length (twenty_days c)" for c
    by (simp_all add: l price_only_def no_conditions_def default_config_def)
  have c: "close_price (iloc_neg (sorted_frame (twenty_days c)) 1) = c" for c
    by (simp add: sorted_frame_def twenty_days_def iloc_neg_def flat_bar_def ohlcv_def)
  have p: "use_price price_only" "max_price price_only = 100" "\<not> use_ma price_only"
    "\<not> use_vol price_only" "\<not> use_min_vol price_only" "\<not> use_inst price_only"
    "\<not> use_shape price_only"
    by (simp_all add: price_only_def no_conditions_def default_config_def)
  have n: "\<not> use_price no_conditions" "\<not> use_ma no_conditions"
    "\<not> use_vol no_conditions" "\<not> use_min_vol no_conditions" "\<not> use_inst no_conditions"
    "\<not> use_shape no_conditions"
    by (simp_all add: no_conditions_def default_config_def)
  have "screen_stocks price_only (twenty_days 100) \<noteq> None"
    using screen_passes_iff_enabled_conditions [OF a(1) a(3), of 100] p c [of 100] by blast
  moreover have "screen_stocks price_only (twenty_days (10001 / 100)) = None"
    using screen_passes_iff_enabled_conditions [OF a(1) a(3), of "10001 / 100"] p c [of "10001 / 100"] by blast
  moreover have "screen_stocks no_conditions (twenty_days (10001 / 100)) \<noteq> None"
    using screen_passes_iff_enabled_conditions [OF a(2) a(3), of "10001 / 100"] n by blast
  ultimately show ?thesis
    using a [of 100] c by simp
qed

end
